theory Spec2Isabelle
  imports Main "HOL-Library.Sublist" "HOL-Library.Monad_Syntax"
begin

section \<open>JavaScript strings and the runtime functions the components call\<close>

text \<open>
  A JavaScript string is a sequence of UTF-16 code units. The model covers the strings
  whose code units are below 256 (Latin-1), one \<^typ>\<open>char\<close> per code unit. On
  these strings \<^verbatim>\<open>toLowerCase\<close> maps A-Z and the accented capitals
  U+00C0..U+00DE (without the multiplication sign U+00D7) to the letter 32 places
  further, and leaves every other code unit alone; \<^verbatim>\<open>trim\<close> removes TAB, LF, VT,
  FF, CR, SPACE and NBSP from both ends.
\<close>

definition lowerChar :: "char \<Rightarrow> char" where
  "lowerChar c =
     (let n = (of_char c :: nat)
      in if (65 \<le> n \<and> n \<le> 90) \<or> (192 \<le> n \<and> n \<le> 222 \<and> n \<noteq> 215)
         then char_of (n + 32) else c)"

definition toLowerCase :: "string \<Rightarrow> string" where
  "toLowerCase s = map lowerChar s"

definition isWhiteSpace :: "char \<Rightarrow> bool" where
  "isWhiteSpace c = ((of_char c :: nat) \<in> set [9, 10, 11, 12, 13, 32, 160])"

definition trim :: "string \<Rightarrow> string" where
  "trim s = rev (dropWhile isWhiteSpace (rev (dropWhile isWhiteSpace s)))"

text \<open>
  \<^verbatim>\<open>s.startsWith(q)\<close> and \<^verbatim>\<open>s.includes(q)\<close>: the search string is tried at
  every position of \<open>s\<close>, from the left.
\<close>

fun startsWith :: "string \<Rightarrow> string \<Rightarrow> bool" where
  "startsWith s [] = True"
| "startsWith [] (q # qs) = False"
| "startsWith (c # cs) (q # qs) = (c = q \<and> startsWith cs qs)"

fun includesStr :: "string \<Rightarrow> string \<Rightarrow> bool" where
  "includesStr [] q = startsWith [] q"
| "includesStr (c # cs) q = (startsWith (c # cs) q \<or> includesStr cs q)"

text \<open>\<^verbatim>\<open>n.toString()\<close> for an integer \<open>n\<close>: its decimal digits, with a sign.\<close>

definition digit :: "nat \<Rightarrow> char" where
  "digit d = ''0123456789'' ! d"

function digits :: "nat \<Rightarrow> string" where
  "digits n = (if n < 10 then [digit n] else digits (n div 10) @ [digit (n mod 10)])"
  by pat_completeness auto
termination
  by (relation "measure (\<lambda>n. n)") auto

definition toString :: "int \<Rightarrow> string" where
  "toString i = (if i < 0 then CHR ''-'' # digits (nat (- i)) else digits (nat i))"

text \<open>The exceptions of the runtime that the components can meet.\<close>

datatype jsError = SyntaxError | TypeError

text \<open>Running on after a step that may have thrown.\<close>

definition thenE :: "jsError + 'a \<Rightarrow> ('a \<Rightarrow> jsError + 'b) \<Rightarrow> jsError + 'b" where
  "thenE x f = (case x of Inl e \<Rightarrow> Inl e | Inr y \<Rightarrow> f y)"

section \<open>The ChatApp component (src/unnamed/part_000)\<close>

subsection \<open>Types\<close>

datatype sender = User | Ai | Contact

datatype chatType = AiChat | ContactChat

text \<open>
  A timestamp field holds a \<^verbatim>\<open>Date\<close> (its time value, milliseconds since the
  epoch) or, after \<^verbatim>\<open>JSON.parse\<close>, the string that \<^verbatim>\<open>JSON.stringify\<close> wrote
  for it. \<^verbatim>\<open>formatTime\<close> of ChatApp takes \<^verbatim>\<open>Date | string\<close> for this reason.
\<close>

datatype timeval = DateObj int | IsoText string

record message =
  msg_id :: string
  msg_text :: string
  timestamp :: timeval
  sender :: sender
  isRead :: bool

record chat =
  chat_id :: string
  name :: string
  chat_type :: chatType
  avatar :: string
  lastMessage :: "message option"
  messages :: "message list"
  isOnline :: bool
  unreadCount :: nat

text \<open>
  A pending \<^verbatim>\<open>setTimeout\<close> callback of \<^verbatim>\<open>sendMessage\<close>: the closure holds the
  \<^verbatim>\<open>activeChat\<close> and the \<^verbatim>\<open>newMessage\<close> of the render in which the message
  was sent.
\<close>

record timer =
  t_activeChat :: string
  t_newMessage :: string

text \<open>
  The component state (the \<^verbatim>\<open>useState\<close> cells) and the timers that have been set
  and have not fired yet.
\<close>

record state =
  chats :: "chat list"
  activeChat :: "string option"
  searchQuery :: string
  newMessage :: string
  isTyping :: bool
  timers :: "timer list"

subsection \<open>Seed data\<close>

text \<open>
  The module is evaluated at time \<open>now\<close> (\<^verbatim>\<open>Date.now()\<close>). The avatars are
  emoji, which are not Latin-1: a word stands for each.
\<close>

definition mockChats :: "int \<Rightarrow> chat list" where
  "mockChats now =
   [\<lparr>chat_id = ''1'', name = ''AI Assistant'', chat_type = AiChat, avatar = ''robot'',
     lastMessage = None,
     messages = [\<lparr>msg_id = ''1'',
        msg_text = ''Hello! I'' @ [CHR 0x27] @ ''m your AI assistant. How can I help you today?'',
        timestamp = DateObj (now - 60000), sender = Ai, isRead = True\<rparr>],
     isOnline = True, unreadCount = 0\<rparr>,
    \<lparr>chat_id = ''2'', name = ''ChatGPT'', chat_type = AiChat, avatar = ''brain'',
     lastMessage = None,
     messages = [\<lparr>msg_id = ''2'',
        msg_text = ''I can help you with coding, writing, analysis, and much more!'',
        timestamp = DateObj (now - 120000), sender = Ai, isRead = False\<rparr>],
     isOnline = True, unreadCount = 2\<rparr>,
    \<lparr>chat_id = ''3'', name = ''John Doe'', chat_type = ContactChat, avatar = ''man'',
     lastMessage = None,
     messages = [\<lparr>msg_id = ''3'', msg_text = ''Hey, how are you doing?'',
        timestamp = DateObj (now - 300000), sender = Contact, isRead = False\<rparr>],
     isOnline = False, unreadCount = 1\<rparr>,
    \<lparr>chat_id = ''4'', name = ''Jane Smith'', chat_type = ContactChat, avatar = ''woman'',
     lastMessage = None,
     messages = [\<lparr>msg_id = ''4'', msg_text = ''Thanks for your help with the project!'',
        timestamp = DateObj (now - 3600000), sender = Contact, isRead = True\<rparr>],
     isOnline = True, unreadCount = 0\<rparr>]"

subsection \<open>Operations\<close>

text \<open>
  \<^verbatim>\<open>chats.filter(chat => chat.name.toLowerCase().includes(searchQuery.toLowerCase()))\<close>
\<close>

definition filteredChats :: "string \<Rightarrow> chat list \<Rightarrow> chat list" where
  "filteredChats q cs = filter (\<lambda>c. includesStr (toLowerCase (name c)) (toLowerCase q)) cs"

text \<open>
  The mount effect (dependency list \<^verbatim>\<open>[]\<close>, so it runs once, after the first
  render): \<^verbatim>\<open>chat.messages[chat.messages.length - 1]\<close> is \<^verbatim>\<open>undefined\<close> for a
  chat without messages.
\<close>

definition lastOf :: "'a list \<Rightarrow> 'a option" where
  "lastOf xs = (if xs = [] then None else Some (last xs))"

definition updateLastMessages :: "state \<Rightarrow> state" where
  "updateLastMessages s =
     s\<lparr>chats := map (\<lambda>c. c\<lparr>lastMessage := lastOf (messages c)\<rparr>) (chats s)\<rparr>"

text \<open>
  \<^verbatim>\<open>generateAIResponse\<close>: \<open>k\<close> is the value of
  \<^verbatim>\<open>Math.floor(Math.random() * responses.length)\<close>, a number of 0..7. The argument
  is not used by the source.
\<close>

definition responses :: "string list" where
  "responses =
   [''That'' @ [CHR 0x27] @ ''s an interesting question! Let me think about that...'',
    ''I understand what you'' @ [CHR 0x27] @ ''re asking. Here'' @ [CHR 0x27] @ ''s my perspective:'',
    ''Great point! I can help you with that.'',
    ''Thanks for sharing that with me. Here'' @ [CHR 0x27] @ ''s what I think:'',
    ''I see what you mean. Let me provide some insights:'',
    ''That'' @ [CHR 0x27] @ ''s a thoughtful question. Here'' @ [CHR 0x27] @ ''s how I'' @ [CHR 0x27] @ ''d approach it:'',
    ''Interesting! I'' @ [CHR 0x27] @ ''d be happy to help you explore that further.'',
    ''I appreciate you asking. Here'' @ [CHR 0x27] @ ''s my take on it:'']"

definition generateAIResponse :: "nat \<Rightarrow> string \<Rightarrow> string" where
  "generateAIResponse k userMessage = responses ! k"

text \<open>
  \<^verbatim>\<open>!activeChat\<close> holds for \<^verbatim>\<open>null\<close> and for the empty string.
\<close>

definition falsy :: "string option \<Rightarrow> bool" where
  "falsy a = (case a of None \<Rightarrow> True | Some x \<Rightarrow> x = [])"

text \<open>
  \<^verbatim>\<open>sendMessage\<close> up to the \<^verbatim>\<open>setTimeout\<close> call, at time \<open>now\<close>. The chat
  looked up with \<^verbatim>\<open>chats.find\<close> is the first one with the id.
\<close>

definition sendMessage :: "int \<Rightarrow> state \<Rightarrow> state" where
  "sendMessage now s =
     (if trim (newMessage s) = [] \<or> falsy (activeChat s) then s
      else
        let a = the (activeChat s);
            message = \<lparr>msg_id = toString now, msg_text = newMessage s,
                       timestamp = DateObj now, sender = User, isRead = True\<rparr>;
            s1 = s\<lparr>chats := map (\<lambda>chat. if chat_id chat = a
                                then chat\<lparr>messages := messages chat @ [message]\<rparr>
                                else chat) (chats s),
                   newMessage := []\<rparr>
        in case find (\<lambda>c. chat_id c = a) (chats s) of
             None \<Rightarrow> s1
           | Some chat \<Rightarrow>
               if chat_type chat = AiChat
               then s1\<lparr>isTyping := True,
                       timers := timers s1 @
                         [\<lparr>t_activeChat = a, t_newMessage = newMessage s\<rparr>]\<rparr>
               else s1)"

text \<open>
  The callback of the timer, run at time \<open>now\<close> with the random index \<open>k\<close>, in
  whatever state the component is by then.
\<close>

definition timeoutCallback :: "timer \<Rightarrow> int \<Rightarrow> nat \<Rightarrow> state \<Rightarrow> state" where
  "timeoutCallback t now k s =
     (let aiResponse = \<lparr>msg_id = toString (now + 1),
                         msg_text = generateAIResponse k (t_newMessage t),
                         timestamp = DateObj now, sender = Ai, isRead = True\<rparr>
      in s\<lparr>chats := map (\<lambda>c. if chat_id c = t_activeChat t
                              then c\<lparr>messages := messages c @ [aiResponse]\<rparr>
                              else c) (chats s),
           isTyping := False\<rparr>)"

text \<open>The \<open>i\<close>-th pending timer fires: it leaves the queue and its callback runs.\<close>

definition fireTimer :: "nat \<Rightarrow> int \<Rightarrow> nat \<Rightarrow> state \<Rightarrow> state" where
  "fireTimer i now k s =
     (if i < length (timers s)
      then timeoutCallback (timers s ! i) now k
             (s\<lparr>timers := take i (timers s) @ drop (Suc i) (timers s)\<rparr>)
      else s)"

definition createNewChat :: "chatType \<Rightarrow> int \<Rightarrow> state \<Rightarrow> state" where
  "createNewChat ty now s =
     (let newChat = \<lparr>chat_id = toString now,
                      name = (if ty = AiChat then ''New AI Assistant'' else ''New Contact''),
                      chat_type = ty,
                      avatar = (if ty = AiChat then ''robot'' else ''person''),
                      lastMessage = None, messages = [],
                      isOnline = True, unreadCount = 0\<rparr>
      in s\<lparr>chats := newChat # chats s, activeChat := Some (chat_id newChat)\<rparr>)"

definition markAsRead :: "string \<Rightarrow> state \<Rightarrow> state" where
  "markAsRead chatId s =
     s\<lparr>chats := map (\<lambda>chat. if chat_id chat = chatId
                       then chat\<lparr>unreadCount := 0,
                                 messages := map (\<lambda>msg. msg\<lparr>isRead := True\<rparr>) (messages chat)\<rparr>
                       else chat) (chats s)\<rparr>"

text \<open>
  The \<^verbatim>\<open>onClick\<close> handler of a row of the chat list:
  \<^verbatim>\<open>setActiveChat(chat.id); markAsRead(chat.id);\<close>
\<close>

definition selectChat :: "string \<Rightarrow> state \<Rightarrow> state" where
  "selectChat chatId s = markAsRead chatId (s\<lparr>activeChat := Some chatId\<rparr>)"

subsection \<open>The component as a transition system\<close>

text \<open>
  The first render: the \<^verbatim>\<open>useState\<close> initial values, with the chats that the
  initializer returned.
\<close>

definition initialState :: "chat list \<Rightarrow> state" where
  "initialState cs =
     \<lparr>chats = cs, activeChat = None, searchQuery = [], newMessage = [],
      isTyping = False, timers = []\<rparr>"

text \<open>
  Everything that changes the state: the mount effect, a click on a row of the chat
  list, the two new-chat buttons, typing in the two inputs, the send button or the
  Enter key, and a timer that fires.
\<close>

datatype event =
    MountEffect
  | SelectChat string
  | CreateNewChat chatType int
  | SetSearchQuery string
  | SetNewMessage string
  | SendMessage int
  | TimerFires nat int nat

fun step :: "event \<Rightarrow> state \<Rightarrow> state" where
  "step MountEffect s = updateLastMessages s"
| "step (SelectChat chatId) s = selectChat chatId s"
| "step (CreateNewChat ty now) s = createNewChat ty now s"
| "step (SetSearchQuery q) s = s\<lparr>searchQuery := q\<rparr>"
| "step (SetNewMessage txt) s = s\<lparr>newMessage := txt\<rparr>"
| "step (SendMessage now) s = sendMessage now s"
| "step (TimerFires i now k) s = fireTimer i now k s"

fun run :: "event list \<Rightarrow> state \<Rightarrow> state" where
  "run [] s = s"
| "run (e # es) s = run es (step e s)"

text \<open>
  The rows of the chat list are those of \<^verbatim>\<open>aiChats\<close> and \<^verbatim>\<open>contactChats\<close>,
  that is of \<^verbatim>\<open>filteredChats\<close>; a click passes the \<^verbatim>\<open>chat.id\<close> of its row.
\<close>

fun offered :: "state \<Rightarrow> event \<Rightarrow> bool" where
  "offered s (SelectChat chatId) =
     (chatId \<in> set (map chat_id (filteredChats (searchQuery s) (chats s))))"
| "offered s e = True"

fun allOffered :: "event list \<Rightarrow> state \<Rightarrow> bool" where
  "allOffered [] s = True"
| "allOffered (e # es) s = (offered s e \<and> allOffered es (step e s))"

text \<open>\<^verbatim>\<open>activeChat\<close> is \<^verbatim>\<open>null\<close> or the id of a chat of the list.\<close>

definition activeChatListed :: "state \<Rightarrow> bool" where
  "activeChatListed s =
     (case activeChat s of None \<Rightarrow> True | Some a \<Rightarrow> a \<in> set (map chat_id (chats s)))"

section \<open>The Chat route component (src/app/routes/chat.tsx)\<close>

subsection \<open>Types\<close>

datatype status = Sent | Delivered | Read

record messageR =
  idR :: string
  textR :: string
  senderR :: sender
  timestampR :: timeval
  statusR :: status

record chatR =
  chat_idR :: string
  nameR :: string
  chat_typeR :: chatType
  avatarR :: string
  lastMessageR :: "messageR option"
  unreadCountR :: nat
  isOnlineR :: bool

text \<open>
  A call of \<^verbatim>\<open>handleSendMessage\<close> suspended at \<^verbatim>\<open>await getAIResponse(text)\<close>:
  its closure holds \<^verbatim>\<open>activeChat\<close>, \<^verbatim>\<open>text\<close> and \<^verbatim>\<open>newMessage\<close>.
\<close>

record replyR =
  r_activeChat :: string
  r_text :: string
  r_newMessage :: messageR

text \<open>
  The state of \<^verbatim>\<open>Chat\<close>, the \<^verbatim>\<open>inputText\<close> of its \<^verbatim>\<open>ChatArea\<close>, and the
  suspended calls. \<^verbatim>\<open>messages\<close> is a \<^verbatim>\<open>Record<string, Message[]>\<close>: an
  association list, in which \<^verbatim>\<open>{...prev, [k]: v}\<close> replaces the entry of \<open>k\<close>
  where it stands or adds one at the end.
\<close>

record stateR =
  chatsR :: "chatR list"
  activeChatR :: "string option"
  messagesR :: "(string \<times> messageR list) list"
  searchQueryR :: string
  isTypingR :: bool
  isMobile :: bool
  showSidebar :: bool
  inputText :: string
  awaiting :: "replyR list"

fun setKey :: "'k \<Rightarrow> 'v \<Rightarrow> ('k \<times> 'v) list \<Rightarrow> ('k \<times> 'v) list" where
  "setKey k v [] = [(k, v)]"
| "setKey k v (e # es) = (if fst e = k then (k, v) # es else e # setKey k v es)"

text \<open>
  The record is a plain object, so a key that it does not have itself is looked up in
  \<^verbatim>\<open>Object.prototype\<close>, whose properties are functions, and for \<^verbatim>\<open>__proto__\<close>
  the prototype object.
\<close>

definition objectPrototypeKeys :: "string list" where
  "objectPrototypeKeys =
     [''constructor'', ''__defineGetter__'', ''__defineSetter__'', ''hasOwnProperty'',
      ''__lookupGetter__'', ''__lookupSetter__'', ''isPrototypeOf'', ''propertyIsEnumerable'',
      ''toString'', ''valueOf'', ''__proto__'', ''toLocaleString'']"

text \<open>
  \<^verbatim>\<open>prev[chatId] || []\<close>, used as an array (\<^verbatim>\<open>.map\<close>, or spread into an array
  literal): the list of the record's own entry; without one, the empty list, unless the
  key names a property of \<^verbatim>\<open>Object.prototype\<close>: then the value is truthy and is
  neither an array nor iterable, and the use of it throws a TypeError.
\<close>

definition messagesOf ::
    "(string \<times> messageR list) list \<Rightarrow> string \<Rightarrow> jsError + messageR list" where
  "messagesOf m k =
     (case map_of m k of
        Some ms \<Rightarrow> Inr ms
      | None \<Rightarrow> if k \<in> set objectPrototypeKeys then Inl TypeError else Inr [])"

subsection \<open>Seed data\<close>

definition mockChatsR :: "chatR list" where
  "mockChatsR =
   [\<lparr>chat_idR = ''1'', nameR = ''AI Assistant'', chat_typeR = AiChat, avatarR = ''robot'',
     lastMessageR = None, unreadCountR = 0, isOnlineR = True\<rparr>,
    \<lparr>chat_idR = ''2'', nameR = ''John Doe'', chat_typeR = ContactChat, avatarR = ''man'',
     lastMessageR = None, unreadCountR = 2, isOnlineR = True\<rparr>,
    \<lparr>chat_idR = ''3'', nameR = ''Jane Smith'', chat_typeR = ContactChat, avatarR = ''woman'',
     lastMessageR = None, unreadCountR = 0, isOnlineR = False\<rparr>]"

subsection \<open>Operations\<close>

definition responsesR :: "string list" where
  "responsesR =
   [''That'' @ [CHR 0x27] @ ''s an interesting question! Let me think about it...'',
    ''I understand what you'' @ [CHR 0x27] @ ''re asking. Here'' @ [CHR 0x27] @ ''s my perspective:'',
    ''Great point! Based on what you'' @ [CHR 0x27] @ ''ve shared, I'' @ [CHR 0x27] @ ''d suggest:'',
    ''Thanks for sharing that with me. Here'' @ [CHR 0x27] @ ''s what I think:'',
    ''I appreciate you bringing this up. My analysis is:'',
    ''That'' @ [CHR 0x27] @ ''s a complex topic. Let me break it down for you:'']"

text \<open>
  The value \<^verbatim>\<open>getAIResponse\<close> resolves to; \<open>k\<close> is
  \<^verbatim>\<open>Math.floor(Math.random() * responses.length)\<close>, a number of 0..5.
\<close>

definition getAIResponse :: "nat \<Rightarrow> string \<Rightarrow> string" where
  "getAIResponse k message =
     responsesR ! k @ '' '' @
     (if includesStr (toLowerCase message) ''hello''
      then ''Hello there! How can I help you today?''
      else ''This is a simulated AI response to demonstrate the chat functionality.'')"

definition filteredChatsR :: "string \<Rightarrow> chatR list \<Rightarrow> chatR list" where
  "filteredChatsR q cs =
     filter (\<lambda>chat. includesStr (toLowerCase (nameR chat)) (toLowerCase q)) cs"

text \<open>
  \<^verbatim>\<open>handleChatSelect\<close>, lines 429-441: the two updates under the comments
  \<^verbatim>\<open>// Mark messages as read\<close> and \<^verbatim>\<open>// Update unread count\<close>.
\<close>

definition markReadR :: "string \<Rightarrow> stateR \<Rightarrow> jsError + stateR" where
  "markReadR chatId s =
     (case messagesOf (messagesR s) chatId of
        Inl e \<Rightarrow> Inl e
      | Inr chatMessages \<Rightarrow>
          Inr (s\<lparr>messagesR :=
                   setKey chatId
                     (map (\<lambda>msg. if senderR msg \<noteq> User then msg\<lparr>statusR := Read\<rparr> else msg)
                          chatMessages)
                     (messagesR s),
                 chatsR := map (\<lambda>chat. if chat_idR chat = chatId
                                  then chat\<lparr>unreadCountR := 0\<rparr> else chat) (chatsR s)\<rparr>))"

definition handleChatSelect :: "string \<Rightarrow> stateR \<Rightarrow> jsError + stateR" where
  "handleChatSelect chatId s =
     markReadR chatId
       (s\<lparr>activeChatR := Some chatId,
          showSidebar := (if isMobile s then False else showSidebar s)\<rparr>)"

text \<open>\<^verbatim>\<open>handleSendMessage(text)\<close> at time \<open>now\<close>, up to the \<^verbatim>\<open>await\<close>.\<close>

definition handleSendMessage :: "string \<Rightarrow> int \<Rightarrow> stateR \<Rightarrow> jsError + stateR" where
  "handleSendMessage txt now s =
     (if falsy (activeChatR s) then Inr s
      else
        let a = the (activeChatR s);
            newMsg = \<lparr>idR = toString now, textR = txt, senderR = User,
                      timestampR = DateObj now, statusR = Sent\<rparr>
        in case messagesOf (messagesR s) a of
             Inl e \<Rightarrow> Inl e
           | Inr old \<Rightarrow>
               let s1 = s\<lparr>messagesR := setKey a (old @ [newMsg]) (messagesR s),
                          chatsR := map (\<lambda>chat. if chat_idR chat = a
                                           then chat\<lparr>lastMessageR := Some newMsg\<rparr>
                                           else chat) (chatsR s)\<rparr>
               in case find (\<lambda>c. chat_idR c = a) (chatsR s) of
                    None \<Rightarrow> Inr s1
                  | Some chat \<Rightarrow>
                      if chat_typeR chat = AiChat
                      then Inr (s1\<lparr>isTypingR := True,
                                   awaiting := awaiting s1 @
                                     [\<lparr>r_activeChat = a, r_text = txt, r_newMessage = newMsg\<rparr>]\<rparr>)
                      else Inr s1)"

text \<open>
  The rest of \<^verbatim>\<open>handleSendMessage\<close>, after \<^verbatim>\<open>getAIResponse\<close> has resolved, at
  time \<open>now\<close> with the random index \<open>k\<close>, in whatever state the component is by then.
\<close>

definition resumeReply :: "replyR \<Rightarrow> int \<Rightarrow> nat \<Rightarrow> stateR \<Rightarrow> jsError + stateR" where
  "resumeReply r now k s =
     (let a = r_activeChat r;
          aiMessage = \<lparr>idR = toString (now + 1), textR = getAIResponse k (r_text r),
                       senderR = Ai, timestampR = DateObj now, statusR = Delivered\<rparr>
      in case messagesOf (messagesR s) a of
           Inl e \<Rightarrow> Inl e
         | Inr old \<Rightarrow>
             Inr (s\<lparr>messagesR := setKey a (old @ [r_newMessage r, aiMessage]) (messagesR s),
                    chatsR := map (\<lambda>c. if chat_idR c = a
                                     then c\<lparr>lastMessageR := Some aiMessage\<rparr> else c) (chatsR s),
                    isTypingR := False\<rparr>))"

definition fireReply :: "nat \<Rightarrow> int \<Rightarrow> nat \<Rightarrow> stateR \<Rightarrow> jsError + stateR" where
  "fireReply i now k s =
     (if i < length (awaiting s)
      then resumeReply (awaiting s ! i) now k
             (s\<lparr>awaiting := take i (awaiting s) @ drop (Suc i) (awaiting s)\<rparr>)
      else Inr s)"

text \<open>
  \<^verbatim>\<open>handleSend\<close> of \<^verbatim>\<open>ChatArea\<close>, the only caller of \<^verbatim>\<open>onSendMessage\<close>: the
  send button and the Enter key both run it.
\<close>

definition handleSend :: "int \<Rightarrow> stateR \<Rightarrow> jsError + stateR" where
  "handleSend now s =
     (if trim (inputText s) \<noteq> []
      then (case handleSendMessage (trim (inputText s)) now s of
              Inl e \<Rightarrow> Inl e
            | Inr s' \<Rightarrow> Inr (s'\<lparr>inputText := []\<rparr>))
      else Inr s)"

text \<open>
  The render of \<^verbatim>\<open>Chat\<close> reads the messages of a chat the same way:
  \<^verbatim>\<open>messages[activeChat] || []\<close>.
\<close>

definition messagesIn :: "string \<Rightarrow> stateR \<Rightarrow> jsError + messageR list" where
  "messagesIn k s = messagesOf (messagesR s) k"

definition handleNewChat :: "int \<Rightarrow> stateR \<Rightarrow> stateR" where
  "handleNewChat now s =
     (let newChatId = ''ai-'' @ toString now;
          newChat = \<lparr>chat_idR = newChatId,
                     nameR = ''AI Assistant '' @
                       toString (int (length (filter (\<lambda>c. chat_typeR c = AiChat) (chatsR s))) + 1),
                     chat_typeR = AiChat, avatarR = ''robot'', lastMessageR = None,
                     unreadCountR = 0, isOnlineR = True\<rparr>
      in s\<lparr>chatsR := newChat # chatsR s, activeChatR := Some newChatId,
           showSidebar := (if isMobile s then False else showSidebar s)\<rparr>)"

subsection \<open>The component as a transition system\<close>

text \<open>
  The state after the first render and the effect that loads the messages: the
  \<^verbatim>\<open>useState\<close> initial values, with the messages \<open>m\<close> that were loaded.
\<close>

definition initialStateR :: "(string \<times> messageR list) list \<Rightarrow> stateR" where
  "initialStateR m =
     \<lparr>chatsR = mockChatsR, activeChatR = None, messagesR = m, searchQueryR = [],
      isTypingR = False, isMobile = False, showSidebar = True, inputText = [],
      awaiting = []\<rparr>"

text \<open>
  \<^verbatim>\<open>Resize w\<close> is \<^verbatim>\<open>checkMobile\<close> at window width \<open>w\<close>; \<^verbatim>\<open>Back\<close> is
  \<^verbatim>\<open>handleBack\<close>.
\<close>

datatype eventR =
    ChatSelect string
  | NewChat int
  | SearchChange string
  | SetInputText string
  | Send int
  | ReplyResolves nat int nat
  | Back
  | Resize int

fun stepR :: "eventR \<Rightarrow> stateR \<Rightarrow> jsError + stateR" where
  "stepR (ChatSelect chatId) s = handleChatSelect chatId s"
| "stepR (NewChat now) s = Inr (handleNewChat now s)"
| "stepR (SearchChange q) s = Inr (s\<lparr>searchQueryR := q\<rparr>)"
| "stepR (SetInputText txt) s = Inr (s\<lparr>inputText := txt\<rparr>)"
| "stepR (Send now) s = handleSend now s"
| "stepR (ReplyResolves i now k) s = fireReply i now k s"
| "stepR Back s = Inr (if isMobile s then s\<lparr>showSidebar := True\<rparr> else s)"
| "stepR (Resize w) s = Inr (s\<lparr>isMobile := (w < 768), showSidebar := (w \<ge> 768)\<rparr>)"

text \<open>A run ends with the first exception.\<close>

fun runR :: "eventR list \<Rightarrow> stateR \<Rightarrow> jsError + stateR" where
  "runR [] s = Inr s"
| "runR (e # es) s = (case stepR e s of Inl x \<Rightarrow> Inl x | Inr s' \<Rightarrow> runR es s')"

fun offeredR :: "stateR \<Rightarrow> eventR \<Rightarrow> bool" where
  "offeredR s (ChatSelect chatId) =
     (chatId \<in> set (map chat_idR (filteredChatsR (searchQueryR s) (chatsR s))))"
| "offeredR s e = True"

fun allOfferedR :: "eventR list \<Rightarrow> stateR \<Rightarrow> bool" where
  "allOfferedR [] s = True"
| "allOfferedR (e # es) s =
     (offeredR s e \<and> (case stepR e s of Inl x \<Rightarrow> True | Inr s' \<Rightarrow> allOfferedR es s'))"

definition activeChatListedR :: "stateR \<Rightarrow> bool" where
  "activeChatListedR s =
     (case activeChatR s of None \<Rightarrow> True | Some a \<Rightarrow> a \<in> set (map chat_idR (chatsR s)))"

text \<open>
  No chat id, and no chat id held by a suspended call, names a property of
  \<^verbatim>\<open>Object.prototype\<close>. The seeded ids are 1, 2 and 3, and a created id begins
  with \<^verbatim>\<open>ai-\<close>.
\<close>

definition plainIds :: "stateR \<Rightarrow> bool" where
  "plainIds s =
     (list_all (\<lambda>c. chat_idR c \<notin> set objectPrototypeKeys) (chatsR s) \<and>
      list_all (\<lambda>p. r_activeChat p \<notin> set objectPrototypeKeys) (awaiting s))"

section \<open>Persistence in localStorage\<close>

subsection \<open>JavaScript values, JSON.stringify and JSON.parse\<close>

text \<open>
  The values that the two components write and read back: JSON values, and
  \<^verbatim>\<open>Date\<close> objects (\<open>JDate None\<close> is an invalid date, whose time value is NaN).
\<close>

datatype jsval =
    JNull
  | JBool bool
  | JNum int
  | JStr string
  | JDate "int option"
  | JArr "jsval list"
  | JObj "(string \<times> jsval) list"

text \<open>
  What \<^verbatim>\<open>localStorage.getItem(key)\<close> returns, by what \<^verbatim>\<open>JSON.parse\<close> does with
  it: \<^verbatim>\<open>null\<close> (no such key), the empty string, a text that \<^verbatim>\<open>JSON.parse\<close>
  rejects with a SyntaxError, or a text that it accepts, with the value it returns.
\<close>

datatype storedItem = Missing | EmptyText | Unparsable | Parsed jsval

text \<open>
  \<open>jsonImage toISOString v\<close> is the value that \<^verbatim>\<open>JSON.parse\<close> returns for the text
  that \<^verbatim>\<open>JSON.stringify(v)\<close> writes: \<^verbatim>\<open>Date.prototype.toJSON\<close> turns a date into
  its \<^verbatim>\<open>toISOString()\<close> text, and an invalid date into \<^verbatim>\<open>null\<close>. The function
  \<open>toISOString\<close>, from time values to strings, is the runtime's.
\<close>

primrec jsonImage :: "(int \<Rightarrow> string) \<Rightarrow> jsval \<Rightarrow> jsval" where
  "jsonImage toISOString JNull = JNull"
| "jsonImage toISOString (JBool b) = JBool b"
| "jsonImage toISOString (JNum n) = JNum n"
| "jsonImage toISOString (JStr x) = JStr x"
| "jsonImage toISOString (JDate d) =
     (case d of None \<Rightarrow> JNull | Some t \<Rightarrow> JStr (toISOString t))"
| "jsonImage toISOString (JArr xs) = JArr (map (jsonImage toISOString) xs)"
| "jsonImage toISOString (JObj fs) = JObj (map (map_prod id (jsonImage toISOString)) fs)"

text \<open>\<^verbatim>\<open>xs.map(f)\<close> with a callback that may throw: the first exception ends it.\<close>

fun mapE :: "('a \<Rightarrow> jsError + 'b) \<Rightarrow> 'a list \<Rightarrow> jsError + 'b list" where
  "mapE f [] = Inr []"
| "mapE f (x # xs) =
     (case f x of
        Inl e \<Rightarrow> Inl e
      | Inr y \<Rightarrow> (case mapE f xs of Inl e \<Rightarrow> Inl e | Inr ys \<Rightarrow> Inr (y # ys)))"

subsection \<open>The typed values as JavaScript values\<close>

definition senderStr :: "sender \<Rightarrow> string" where
  "senderStr x = (case x of User \<Rightarrow> ''user'' | Ai \<Rightarrow> ''ai'' | Contact \<Rightarrow> ''contact'')"

definition senderOfStr :: "string \<Rightarrow> sender option" where
  "senderOfStr x =
     (if x = ''user'' then Some User else if x = ''ai'' then Some Ai
      else if x = ''contact'' then Some Contact else None)"

definition typeStr :: "chatType \<Rightarrow> string" where
  "typeStr x = (case x of AiChat \<Rightarrow> ''ai'' | ContactChat \<Rightarrow> ''contact'')"

definition typeOfStr :: "string \<Rightarrow> chatType option" where
  "typeOfStr x =
     (if x = ''ai'' then Some AiChat else if x = ''contact'' then Some ContactChat else None)"

definition statusStr :: "status \<Rightarrow> string" where
  "statusStr x = (case x of Sent \<Rightarrow> ''sent'' | Delivered \<Rightarrow> ''delivered'' | Read \<Rightarrow> ''read'')"

definition statusOfStr :: "string \<Rightarrow> status option" where
  "statusOfStr x =
     (if x = ''sent'' then Some Sent else if x = ''delivered'' then Some Delivered
      else if x = ''read'' then Some Read else None)"

definition jsOfTime :: "timeval \<Rightarrow> jsval" where
  "jsOfTime x = (case x of DateObj t \<Rightarrow> JDate (Some t) | IsoText y \<Rightarrow> JStr y)"

definition timeOfJs :: "jsval \<Rightarrow> timeval option" where
  "timeOfJs j =
     (case j of JDate (Some t) \<Rightarrow> Some (DateObj t) | JStr y \<Rightarrow> Some (IsoText y) | _ \<Rightarrow> None)"

definition strOf :: "jsval option \<Rightarrow> string option" where
  "strOf j = (case j of Some (JStr x) \<Rightarrow> Some x | _ \<Rightarrow> None)"

definition boolOf :: "jsval option \<Rightarrow> bool option" where
  "boolOf j = (case j of Some (JBool b) \<Rightarrow> Some b | _ \<Rightarrow> None)"

definition natOf :: "jsval option \<Rightarrow> nat option" where
  "natOf j = (case j of Some (JNum n) \<Rightarrow> (if 0 \<le> n then Some (nat n) else None) | _ \<Rightarrow> None)"

definition arrOf :: "jsval option \<Rightarrow> jsval list option" where
  "arrOf j = (case j of Some (JArr xs) \<Rightarrow> Some xs | _ \<Rightarrow> None)"

text \<open>A \<^verbatim>\<open>Message\<close> of ChatApp, in the key order of the object literals.\<close>

definition jsOfMessage :: "message \<Rightarrow> jsval" where
  "jsOfMessage m =
     JObj [(''id'', JStr (msg_id m)), (''text'', JStr (msg_text m)),
           (''timestamp'', jsOfTime (timestamp m)), (''sender'', JStr (senderStr (sender m))),
           (''isRead'', JBool (isRead m))]"

definition messageOfJs :: "jsval \<Rightarrow> message option" where
  "messageOfJs j =
     (case j of
        JObj fs \<Rightarrow>
          do {
            i \<leftarrow> strOf (map_of fs ''id'');
            x \<leftarrow> strOf (map_of fs ''text'');
            t \<leftarrow> Option.bind (map_of fs ''timestamp'') timeOfJs;
            sd \<leftarrow> Option.bind (strOf (map_of fs ''sender'')) senderOfStr;
            r \<leftarrow> boolOf (map_of fs ''isRead'');
            Some \<lparr>msg_id = i, msg_text = x, timestamp = t, sender = sd, isRead = r\<rparr>
          }
      | _ \<Rightarrow> None)"

text \<open>
  A \<^verbatim>\<open>Chat\<close> of ChatApp. \<^verbatim>\<open>lastMessage\<close> is an optional property: an object
  without it stands for \<^verbatim>\<open>undefined\<close>, which \<^verbatim>\<open>JSON.stringify\<close> leaves out.
\<close>

definition jsOfChat :: "chat \<Rightarrow> jsval" where
  "jsOfChat c =
     JObj ([(''id'', JStr (chat_id c)), (''name'', JStr (name c)),
            (''type'', JStr (typeStr (chat_type c))), (''avatar'', JStr (avatar c)),
            (''isOnline'', JBool (isOnline c)), (''unreadCount'', JNum (int (unreadCount c))),
            (''messages'', JArr (map jsOfMessage (messages c)))] @
           (case lastMessage c of None \<Rightarrow> [] | Some m \<Rightarrow> [(''lastMessage'', jsOfMessage m)]))"

definition chatOfJs :: "jsval \<Rightarrow> chat option" where
  "chatOfJs j =
     (case j of
        JObj fs \<Rightarrow>
          do {
            i \<leftarrow> strOf (map_of fs ''id'');
            n \<leftarrow> strOf (map_of fs ''name'');
            ty \<leftarrow> Option.bind (strOf (map_of fs ''type'')) typeOfStr;
            a \<leftarrow> strOf (map_of fs ''avatar'');
            lm \<leftarrow> (case map_of fs ''lastMessage'' of
                     None \<Rightarrow> Some None
                   | Some l \<Rightarrow> map_option Some (messageOfJs l));
            ms \<leftarrow> Option.bind (arrOf (map_of fs ''messages'')) (\<lambda>xs. those (map messageOfJs xs));
            on \<leftarrow> boolOf (map_of fs ''isOnline'');
            u \<leftarrow> natOf (map_of fs ''unreadCount'');
            Some \<lparr>chat_id = i, name = n, chat_type = ty, avatar = a, lastMessage = lm,
                  messages = ms, isOnline = on, unreadCount = u\<rparr>
          }
      | _ \<Rightarrow> None)"

definition jsOfChats :: "chat list \<Rightarrow> jsval" where
  "jsOfChats cs = JArr (map jsOfChat cs)"

definition chatsOfJs :: "jsval \<Rightarrow> chat list option" where
  "chatsOfJs j = (case j of JArr xs \<Rightarrow> those (map chatOfJs xs) | _ \<Rightarrow> None)"

text \<open>A \<^verbatim>\<open>Message\<close> of the Chat route and its \<^verbatim>\<open>Record<string, Message[]>\<close>.\<close>

definition jsOfMessageR :: "messageR \<Rightarrow> jsval" where
  "jsOfMessageR m =
     JObj [(''id'', JStr (idR m)), (''text'', JStr (textR m)),
           (''sender'', JStr (senderStr (senderR m))),
           (''timestamp'', jsOfTime (timestampR m)),
           (''status'', JStr (statusStr (statusR m)))]"

definition messageROfJs :: "jsval \<Rightarrow> messageR option" where
  "messageROfJs j =
     (case j of
        JObj fs \<Rightarrow>
          do {
            i \<leftarrow> strOf (map_of fs ''id'');
            x \<leftarrow> strOf (map_of fs ''text'');
            sd \<leftarrow> Option.bind (strOf (map_of fs ''sender'')) senderOfStr;
            t \<leftarrow> Option.bind (map_of fs ''timestamp'') timeOfJs;
            st \<leftarrow> Option.bind (strOf (map_of fs ''status'')) statusOfStr;
            Some \<lparr>idR = i, textR = x, senderR = sd, timestampR = t, statusR = st\<rparr>
          }
      | _ \<Rightarrow> None)"

definition jsOfMessages :: "(string \<times> messageR list) list \<Rightarrow> jsval" where
  "jsOfMessages m = JObj (map (\<lambda>(k, ms). (k, JArr (map jsOfMessageR ms))) m)"

definition messagesOfJs :: "jsval \<Rightarrow> (string \<times> messageR list) list option" where
  "messagesOfJs j =
     (case j of
        JObj fs \<Rightarrow>
          those (map (\<lambda>(k, v). map_option (Pair k)
                         (Option.bind (arrOf (Some v)) (\<lambda>xs. those (map messageROfJs xs)))) fs)
      | _ \<Rightarrow> None)"

subsection \<open>ChatApp: the save effect and the state initializer\<close>

text \<open>
  \<^verbatim>\<open>localStorage.setItem('telegram-clone-chats', JSON.stringify(chats))\<close>: the item
  that is stored.
\<close>

definition saveChats :: "(int \<Rightarrow> string) \<Rightarrow> chat list \<Rightarrow> storedItem" where
  "saveChats toISOString cs = Parsed (jsonImage toISOString (jsOfChats cs))"

text \<open>
  The callback \<^verbatim>\<open>msg => ({...msg, timestamp: new Date(msg.timestamp)})\<close>. The
  function \<open>newDate\<close> is the runtime's: the time value of \<^verbatim>\<open>new Date(x)\<close>, with
  \<open>None\<close> as argument for \<^verbatim>\<open>undefined\<close> and as result for NaN. Reading a property
  of \<^verbatim>\<open>null\<close> throws; spreading a string or an array copies its indexed elements,
  spreading a boolean or a number copies nothing.
\<close>

definition indexed :: "jsval list \<Rightarrow> (string \<times> jsval) list" where
  "indexed xs = zip (map (\<lambda>i. toString (int i)) [0..<length xs]) xs"

definition reviveMessage :: "(jsval option \<Rightarrow> int option) \<Rightarrow> jsval \<Rightarrow> jsError + jsval" where
  "reviveMessage newDate msg =
     (case msg of
        JNull \<Rightarrow> Inl TypeError
      | JObj fs \<Rightarrow> Inr (JObj (setKey ''timestamp'' (JDate (newDate (map_of fs ''timestamp''))) fs))
      | JStr x \<Rightarrow>
          Inr (JObj (indexed (map (\<lambda>c. JStr [c]) x) @ [(''timestamp'', JDate (newDate None))]))
      | JArr xs \<Rightarrow> Inr (JObj (indexed xs @ [(''timestamp'', JDate (newDate None))]))
      | _ \<Rightarrow> Inr (JObj [(''timestamp'', JDate (newDate None))]))"

text \<open>
  The callback \<^verbatim>\<open>chat => ({...chat, messages: chat.messages.map(...)})\<close>:
  \<^verbatim>\<open>chat.messages.map\<close> is a function only when \<^verbatim>\<open>chat.messages\<close> is an array.
\<close>

definition reviveChat :: "(jsval option \<Rightarrow> int option) \<Rightarrow> jsval \<Rightarrow> jsError + jsval" where
  "reviveChat newDate c =
     (case c of
        JObj fs \<Rightarrow>
          (case map_of fs ''messages'' of
             Some (JArr ms) \<Rightarrow>
               (case mapE (reviveMessage newDate) ms of
                  Inl e \<Rightarrow> Inl e
                | Inr ms' \<Rightarrow> Inr (JObj (setKey ''messages'' (JArr ms') fs)))
           | _ \<Rightarrow> Inl TypeError)
      | _ \<Rightarrow> Inl TypeError)"

text \<open>
  The \<^verbatim>\<open>useState\<close> initializer of \<^verbatim>\<open>chats\<close>, in the browser, with the module
  evaluated at time \<open>now\<close>. \<^verbatim>\<open>JSON.parse(saved)\<close> is not inside a \<^verbatim>\<open>try\<close>.
\<close>

definition initChats ::
    "(jsval option \<Rightarrow> int option) \<Rightarrow> int \<Rightarrow> storedItem \<Rightarrow> jsError + jsval" where
  "initChats newDate now saved =
     (case saved of
        Missing \<Rightarrow> Inr (jsOfChats (mockChats now))
      | EmptyText \<Rightarrow> Inr (jsOfChats (mockChats now))
      | Unparsable \<Rightarrow> Inl SyntaxError
      | Parsed j \<Rightarrow>
          (case j of
             JArr cs \<Rightarrow>
               (case mapE (reviveChat newDate) cs of Inl e \<Rightarrow> Inl e | Inr cs' \<Rightarrow> Inr (JArr cs'))
           | _ \<Rightarrow> Inl TypeError))"

subsection \<open>Chat route: saveMessages and loadMessages\<close>

text \<open>
  \<^verbatim>\<open>saveMessages\<close>: the item that is stored. \<^verbatim>\<open>loadMessages\<close>: the exception of
  \<^verbatim>\<open>JSON.parse\<close> is caught, and the parsed value is returned as it is.
\<close>

definition saveMessages :: "(int \<Rightarrow> string) \<Rightarrow> (string \<times> messageR list) list \<Rightarrow> storedItem" where
  "saveMessages toISOString m = Parsed (jsonImage toISOString (jsOfMessages m))"

definition loadMessages :: "storedItem \<Rightarrow> jsval" where
  "loadMessages stored =
     (case stored of
        Missing \<Rightarrow> JObj []
      | EmptyText \<Rightarrow> JObj []
      | Unparsable \<Rightarrow> JObj []
      | Parsed j \<Rightarrow> j)"

subsection \<open>A message as it is read back\<close>

text \<open>
  The text that \<^verbatim>\<open>JSON.stringify\<close> writes for a timestamp, and a message whose
  timestamp is that text: the message as \<^verbatim>\<open>JSON.parse\<close> returns it.
\<close>

definition textOfTime :: "(int \<Rightarrow> string) \<Rightarrow> timeval \<Rightarrow> string" where
  "textOfTime toISOString x = (case x of DateObj t \<Rightarrow> toISOString t | IsoText y \<Rightarrow> y)"

definition asParsed :: "(int \<Rightarrow> string) \<Rightarrow> message \<Rightarrow> message" where
  "asParsed toISOString m = m\<lparr>timestamp := IsoText (textOfTime toISOString (timestamp m))\<rparr>"

definition asParsedR :: "(int \<Rightarrow> string) \<Rightarrow> messageR \<Rightarrow> messageR" where
  "asParsedR toISOString m = m\<lparr>timestampR := IsoText (textOfTime toISOString (timestampR m))\<rparr>"

section \<open>Events of the user and events of the runtime in ChatApp\<close>

text \<open>
  A timer that fires comes from the runtime; every other event of ChatApp is the
  user's.
\<close>

fun userEvent :: "event \<Rightarrow> bool" where
  "userEvent (TimerFires i now k) = False"
| "userEvent e = True"

section \<open>Notions of the specification\<close>

text \<open>
  The specification's words for the search filter. The letters of Latin-1 come in pairs,
  a capital and its small letter: the 26 of the alphabet, and the accented letters from
  U+00C0 to U+00DE with those from U+00E0 to U+00FE (the multiplication and the division
  sign, U+00D7 and U+00F7, are no letters). Two characters are the same letter when they
  are equal or are the two forms of one letter. A name contains the query
  case-insensitively when some substring of the name has the length of the query and at
  each place the same letter as the query.
\<close>

definition capitals :: string where
  "capitals =
     ''ABCDEFGHIJKLMNOPQRSTUVWXYZ'' @
     [CHR 0xC0, CHR 0xC1, CHR 0xC2, CHR 0xC3, CHR 0xC4, CHR 0xC5, CHR 0xC6, CHR 0xC7,
      CHR 0xC8, CHR 0xC9, CHR 0xCA, CHR 0xCB, CHR 0xCC, CHR 0xCD, CHR 0xCE, CHR 0xCF,
      CHR 0xD0, CHR 0xD1, CHR 0xD2, CHR 0xD3, CHR 0xD4, CHR 0xD5, CHR 0xD6,
      CHR 0xD8, CHR 0xD9, CHR 0xDA, CHR 0xDB, CHR 0xDC, CHR 0xDD, CHR 0xDE]"

definition smalls :: string where
  "smalls =
     ''abcdefghijklmnopqrstuvwxyz'' @
     [CHR 0xE0, CHR 0xE1, CHR 0xE2, CHR 0xE3, CHR 0xE4, CHR 0xE5, CHR 0xE6, CHR 0xE7,
      CHR 0xE8, CHR 0xE9, CHR 0xEA, CHR 0xEB, CHR 0xEC, CHR 0xED, CHR 0xEE, CHR 0xEF,
      CHR 0xF0, CHR 0xF1, CHR 0xF2, CHR 0xF3, CHR 0xF4, CHR 0xF5, CHR 0xF6,
      CHR 0xF8, CHR 0xF9, CHR 0xFA, CHR 0xFB, CHR 0xFC, CHR 0xFD, CHR 0xFE]"

definition sameLetter :: "char \<Rightarrow> char \<Rightarrow> bool" where
  "sameLetter x y =
     (x = y \<or> (x, y) \<in> set (zip capitals smalls) \<or> (y, x) \<in> set (zip capitals smalls))"

definition eqIgnoreCase :: "string \<Rightarrow> string \<Rightarrow> bool" where
  "eqIgnoreCase a b = list_all2 sameLetter a b"

text \<open>The small form of a character, read from the table of the pairs.\<close>

definition smallForm :: "char \<Rightarrow> char" where
  "smallForm c = (case map_of (zip capitals smalls) c of None \<Rightarrow> c | Some l \<Rightarrow> l)"

definition containsIgnoreCase :: "string \<Rightarrow> string \<Rightarrow> bool" where
  "containsIgnoreCase nm q = (\<exists>pre mid suf. nm = pre @ mid @ suf \<and> eqIgnoreCase mid q)"

text \<open>
  The specification's words for the unread counts: the chats of the earlier state are
  all still there, in their order and behind the chats created since, none with a higher
  unread count than it had, and the chats created since have none.
\<close>

definition unreadNotRaised :: "chat list \<Rightarrow> chat list \<Rightarrow> bool" where
  "unreadNotRaised old new =
     (let k = length new - length old
      in length old \<le> length new \<and>
         list_all (\<lambda>c. unreadCount c = 0) (take k new) \<and>
         list_all2 (\<lambda>c c'. chat_id c' = chat_id c \<and> unreadCount c' \<le> unreadCount c)
           old (drop k new))"

section \<open>Strings\<close>

lemma startsWith_iff: "startsWith s q \<longleftrightarrow> prefix q s"
  by (induction s q rule: startsWith.induct) auto

lemma includesStr_iff: "includesStr s q \<longleftrightarrow> (\<exists>pre suf. s = pre @ q @ suf)"
proof (induction s)
  case Nil
  then show ?case by (cases q) auto
next
  case (Cons c cs)
  show ?case
  proof
    assume "includesStr (c # cs) q"
    then consider "startsWith (c # cs) q" | "includesStr cs q" by auto
    then show "\<exists>pre suf. c # cs = pre @ q @ suf"
    proof cases
      case 1
      then obtain suf where "c # cs = q @ suf" by (auto simp: startsWith_iff prefix_def)
      then have "c # cs = [] @ q @ suf" by simp
      then show ?thesis by blast
    next
      case 2
      then obtain pre suf where "cs = pre @ q @ suf" using Cons.IH by blast
      then have "c # cs = (c # pre) @ q @ suf" by simp
      then show ?thesis by blast
    qed
  next
    assume "\<exists>pre suf. c # cs = pre @ q @ suf"
    then obtain pre suf where e: "c # cs = pre @ q @ suf" by blast
    show "includesStr (c # cs) q"
    proof (cases pre)
      case Nil
      then have "prefix q (c # cs)" using e by (simp add: prefix_def)
      then show ?thesis by (simp add: startsWith_iff)
    next
      case (Cons p ps)
      then have "cs = ps @ q @ suf" using e by simp
      then have "includesStr cs q" using Cons.IH by blast
      then show ?thesis by simp
    qed
  qed
qed

lemma includesStr_Nil: "includesStr s []"
  by (cases s) auto

lemma dropWhile_all_iff: "(\<forall>x\<in>set (dropWhile P xs). P x) \<longleftrightarrow> (\<forall>x\<in>set xs. P x)"
  by (induction xs) auto

lemma trim_empty_iff: "trim s = [] \<longleftrightarrow> list_all isWhiteSpace s"
  unfolding trim_def
  by (simp add: dropWhile_eq_Nil_conv list_all_iff dropWhile_all_iff)

lemma lowerChar_smallForm: "\<forall>c. lowerChar c = smallForm c"
  by code_simp

lemma letter_table:
  "distinct (map fst (zip capitals smalls))"
  "distinct (map snd (zip capitals smalls))"
  "set (map fst (zip capitals smalls)) \<inter> set (map snd (zip capitals smalls)) = {}"
  by (simp_all add: capitals_def smalls_def)

lemma table_fold_eq_iff:
  assumes "distinct (map fst T)" and "distinct (map snd T)"
    and "set (map fst T) \<inter> set (map snd T) = {}"
  shows "(case map_of T x of None \<Rightarrow> x | Some l \<Rightarrow> l) = (case map_of T y of None \<Rightarrow> y | Some l \<Rightarrow> l)
     \<longleftrightarrow> x = y \<or> (x, y) \<in> set T \<or> (y, x) \<in> set T"
proof -
  have inj: "(a, l) \<in> set T \<Longrightarrow> (b, l) \<in> set T \<Longrightarrow> a = b" for a b l
    using assms(2) by (induction T) (auto simp: rev_image_eqI)
  have sep: "(a, l) \<in> set T \<Longrightarrow> map_of T l = None" for a l
  proof -
    assume "(a, l) \<in> set T"
    then have "l \<in> set (map snd T)" by (auto simp: rev_image_eqI)
    then have "l \<notin> set (map fst T)" using assms(3) by blast
    then show "map_of T l = None" by (simp add: map_of_eq_None_iff)
  qed
  have look: "(a, l) \<in> set T \<Longrightarrow> map_of T a = Some l" for a l
    using assms(1) by simp
  show ?thesis
  proof (cases "map_of T x")
    case None
    note nx = None
    show ?thesis
    proof (cases "map_of T y")
      case None
      have "(x, y) \<notin> set T" "(y, x) \<notin> set T"
        using nx None look by fastforce+
      then show ?thesis using nx None by simp
    next
      case (Some l)
      then have m: "(y, l) \<in> set T" by (rule map_of_SomeD)
      have "(x, y) \<notin> set T" using nx look by fastforce
      moreover have "x = l \<longleftrightarrow> (y, x) \<in> set T"
        using m look Some by fastforce
      moreover have "x = y \<Longrightarrow> False" using nx Some by simp
      ultimately show ?thesis using nx Some by auto
    qed
  next
    case (Some k)
    note sx = Some
    then have mx: "(x, k) \<in> set T" by (rule map_of_SomeD)
    show ?thesis
    proof (cases "map_of T y")
      case None
      have "(y, x) \<notin> set T" using None look by fastforce
      moreover have "k = y \<longleftrightarrow> (x, y) \<in> set T"
        using mx look sx by fastforce
      moreover have "x = y \<Longrightarrow> False" using sx None by simp
      ultimately show ?thesis using sx None by auto
    next
      case (Some l)
      then have my: "(y, l) \<in> set T" by (rule map_of_SomeD)
      have "(x, y) \<notin> set T" using sep [of x y] Some by auto
      moreover have "(y, x) \<notin> set T" using sep [of y x] sx by auto
      moreover have "k = l \<longleftrightarrow> x = y" using inj mx my sx Some by auto
      ultimately show ?thesis using sx Some by simp
    qed
  qed
qed

lemma sameLetter_iff: "sameLetter x y \<longleftrightarrow> lowerChar x = lowerChar y"
  using table_fold_eq_iff [OF letter_table, of x y] lowerChar_smallForm
  by (simp add: sameLetter_def smallForm_def)

lemma eqIgnoreCase_iff: "eqIgnoreCase a b \<longleftrightarrow> toLowerCase a = toLowerCase b"
  unfolding eqIgnoreCase_def toLowerCase_def
proof (induction a arbitrary: b)
  case Nil
  then show ?case by auto
next
  case (Cons x xs)
  then show ?case by (cases b) (auto simp: sameLetter_iff)
qed

lemma includes_lower_iff:
  "includesStr (toLowerCase nm) (toLowerCase q) \<longleftrightarrow> containsIgnoreCase nm q"
proof
  assume "includesStr (toLowerCase nm) (toLowerCase q)"
  then obtain pre' suf' where e: "map lowerChar nm = pre' @ map lowerChar q @ suf'"
    unfolding includesStr_iff toLowerCase_def by blast
  from e obtain pre rest where 1: "nm = pre @ rest"
      and n1: "map lowerChar q @ suf' = map lowerChar rest"
    unfolding map_eq_append_conv by blast
  from n1 [symmetric] obtain mid suf where 2: "rest = mid @ suf"
      and n2: "map lowerChar q = map lowerChar mid"
    unfolding map_eq_append_conv by blast
  have "eqIgnoreCase mid q" using n2 by (simp add: eqIgnoreCase_iff toLowerCase_def)
  then show "containsIgnoreCase nm q"
    unfolding containsIgnoreCase_def using 1 2 by blast
next
  assume "containsIgnoreCase nm q"
  then obtain pre mid suf where e: "nm = pre @ mid @ suf" "toLowerCase mid = toLowerCase q"
    unfolding containsIgnoreCase_def eqIgnoreCase_iff by blast
  then have "toLowerCase nm = toLowerCase pre @ toLowerCase q @ toLowerCase suf"
    by (simp add: toLowerCase_def)
  then show "includesStr (toLowerCase nm) (toLowerCase q)"
    unfolding includesStr_iff by blast
qed

lemma digits_small: "n < 10 \<Longrightarrow> digits n = [digit n]"
  by (subst digits.simps) simp

lemma digits_large: "10 \<le> n \<Longrightarrow> digits n = digits (n div 10) @ [digit (n mod 10)]"
  by (subst digits.simps) simp

lemma toString_examples: "toString 1000 = ''1000''" "toString 2001 = ''2001''"
  by (simp_all add: toString_def digits_small digits_large digit_def del: digits.simps)

section \<open>Lists and records of messages\<close>

lemma map_of_setKey: "map_of (setKey k v m) k' = (if k' = k then Some v else map_of m k')"
  by (induction m) auto

lemma map_unlisted:
  "x \<notin> set (map key cs) \<Longrightarrow> map (\<lambda>c. if key c = x then f c else c) cs = cs"
  by (induction cs) auto

lemma ids_map_if:
  "(\<And>c. key (f c) = key c) \<Longrightarrow> map key (map (\<lambda>c. if P c then f c else c) cs) = map key cs"
  by (induction cs) auto

lemma ball_map_if:
  "(\<forall>c\<in>set (map (\<lambda>c. if P c then f c else c) cs). Q c) \<longleftrightarrow>
   (\<forall>c\<in>set cs. if P c then Q (f c) else Q c)"
  by (induction cs) auto

lemma setKey_absent: "map_of m k = None \<Longrightarrow> setKey k v m = m @ [(k, v)]"
  by (induction m) (auto split: if_splits)

lemma messagesOf_setKey:
  "messagesOf (setKey k v m) k' = (if k' = k then Inr v else messagesOf m k')"
  by (simp add: messagesOf_def map_of_setKey)

lemma messagesOf_throws_iff:
  "messagesOf m k = Inl e \<longleftrightarrow>
   e = TypeError \<and> map_of m k = None \<and> k \<in> set objectPrototypeKeys"
  by (auto simp: messagesOf_def split: option.splits)

lemma messagesOf_plain:
  "k \<notin> set objectPrototypeKeys \<Longrightarrow>
   messagesOf m k = Inr (case map_of m k of None \<Rightarrow> [] | Some ms \<Rightarrow> ms)"
  by (simp add: messagesOf_def split: option.splits)

lemma created_id_plain: "CHR ''a'' # CHR ''i'' # CHR ''-'' # x \<notin> set objectPrototypeKeys"
  by (simp add: objectPrototypeKeys_def)

section \<open>What the operations of ChatApp change\<close>

lemma unreadNotRaised_iff:
  "unreadNotRaised old new \<longleftrightarrow>
   (\<exists>pre rest. new = pre @ rest \<and> list_all (\<lambda>c. unreadCount c = 0) pre \<and>
      list_all2 (\<lambda>c c'. chat_id c' = chat_id c \<and> unreadCount c' \<le> unreadCount c) old rest)"
proof
  assume "unreadNotRaised old new"
  then have "new = take (length new - length old) new @ drop (length new - length old) new \<and>
      list_all (\<lambda>c. unreadCount c = 0) (take (length new - length old) new) \<and>
      list_all2 (\<lambda>c c'. chat_id c' = chat_id c \<and> unreadCount c' \<le> unreadCount c)
        old (drop (length new - length old) new)"
    by (simp add: unreadNotRaised_def Let_def)
  then show "\<exists>pre rest. new = pre @ rest \<and> list_all (\<lambda>c. unreadCount c = 0) pre \<and>
      list_all2 (\<lambda>c c'. chat_id c' = chat_id c \<and> unreadCount c' \<le> unreadCount c) old rest"
    by blast
next
  assume "\<exists>pre rest. new = pre @ rest \<and> list_all (\<lambda>c. unreadCount c = 0) pre \<and>
      list_all2 (\<lambda>c c'. chat_id c' = chat_id c \<and> unreadCount c' \<le> unreadCount c) old rest"
  then obtain pre rest where n: "new = pre @ rest"
    and p: "list_all (\<lambda>c. unreadCount c = 0) pre"
    and r: "list_all2 (\<lambda>c c'. chat_id c' = chat_id c \<and> unreadCount c' \<le> unreadCount c) old rest"
    by blast
  from r have l: "length old = length rest" by (rule list_all2_lengthD)
  show "unreadNotRaised old new"
    using p r by (simp add: unreadNotRaised_def Let_def n l)
qed

lemma unreadNotRaised_same:
  assumes "\<And>c. chat_id (f c) = chat_id c \<and> unreadCount (f c) \<le> unreadCount c"
  shows "unreadNotRaised cs (map (\<lambda>c. if P c then f c else c) cs)"
proof -
  have "list_all2 (\<lambda>c c'. chat_id c' = chat_id c \<and> unreadCount c' \<le> unreadCount c)
          cs (map (\<lambda>c. if P c then f c else c) cs)"
    using assms by (simp add: list_all2_map2 list_all2_same)
  then have "map (\<lambda>c. if P c then f c else c) cs = [] @ map (\<lambda>c. if P c then f c else c) cs \<and>
      list_all (\<lambda>c. unreadCount c = 0) [] \<and>
      list_all2 (\<lambda>c c'. chat_id c' = chat_id c \<and> unreadCount c' \<le> unreadCount c)
          cs (map (\<lambda>c. if P c then f c else c) cs)"
    by simp
  then show ?thesis unfolding unreadNotRaised_iff by blast
qed

lemma unreadNotRaised_refl: "unreadNotRaised cs cs"
  using unreadNotRaised_same [of id cs "\<lambda>c. False"] by simp

lemma unreadNotRaised_new:
  assumes "unreadCount c = 0"
  shows "unreadNotRaised cs (c # cs)"
proof -
  have "c # cs = [c] @ cs \<and> list_all (\<lambda>c. unreadCount c = 0) [c] \<and>
      list_all2 (\<lambda>c c'. chat_id c' = chat_id c \<and> unreadCount c' \<le> unreadCount c) cs cs"
    using assms by (simp add: list_all2_same)
  then show ?thesis unfolding unreadNotRaised_iff by blast
qed

lemma unreadNotRaised_trans:
  assumes "unreadNotRaised xs ys" and "unreadNotRaised ys zs"
  shows "unreadNotRaised xs zs"
proof -
  let ?R = "\<lambda>c c'. chat_id c' = chat_id c \<and> unreadCount c' \<le> unreadCount c"
  let ?Z = "\<lambda>c. unreadCount c = 0"
  from assms(1) obtain p1 r1 where y: "ys = p1 @ r1" and p1: "list_all ?Z p1"
    and r1: "list_all2 ?R xs r1"
    unfolding unreadNotRaised_iff by blast
  from assms(2) obtain p2 r2 where z: "zs = p2 @ r2" and p2: "list_all ?Z p2"
    and r2: "list_all2 ?R ys r2"
    unfolding unreadNotRaised_iff by blast
  from r2 y obtain a b where ab: "r2 = a @ b" and a: "list_all2 ?R p1 a" and b: "list_all2 ?R r1 b"
    by (auto simp: list_all2_append1)
  have za: "list_all ?Z a"
    using a p1 by (induction p1 a rule: list_all2_induct) auto
  have xb: "list_all2 ?R xs b"
    using r1 b by (rule list_all2_trans [rotated]) auto
  have "zs = (p2 @ a) @ b \<and> list_all ?Z (p2 @ a) \<and> list_all2 ?R xs b"
    using z ab p2 za xb by simp
  then show ?thesis unfolding unreadNotRaised_iff by blast
qed

lemma chats_sendMessage:
  "chats (sendMessage now s) = chats s \<or>
   chats (sendMessage now s) =
     map (\<lambda>chat. if chat_id chat = the (activeChat s)
                 then chat\<lparr>messages := messages chat @
                        [\<lparr>msg_id = toString now, msg_text = newMessage s,
                          timestamp = DateObj now, sender = User, isRead = True\<rparr>]\<rparr>
                 else chat) (chats s)"
  by (simp add: sendMessage_def Let_def split: option.split)

lemma activeChat_sendMessage: "activeChat (sendMessage now s) = activeChat s"
  by (simp add: sendMessage_def Let_def split: option.split)

lemma chats_fireTimer:
  "chats (fireTimer i now k s) = chats s \<or>
   chats (fireTimer i now k s) =
     map (\<lambda>c. if chat_id c = t_activeChat (timers s ! i)
              then c\<lparr>messages := messages c @
                     [\<lparr>msg_id = toString (now + 1),
                       msg_text = generateAIResponse k (t_newMessage (timers s ! i)),
                       timestamp = DateObj now, sender = Ai, isRead = True\<rparr>]\<rparr>
              else c) (chats s)"
  by (simp add: fireTimer_def timeoutCallback_def Let_def)

lemma activeChat_fireTimer: "activeChat (fireTimer i now k s) = activeChat s"
  by (simp add: fireTimer_def timeoutCallback_def Let_def)

lemma ids_selectChat: "map chat_id (chats (selectChat x s)) = map chat_id (chats s)"
  by (simp add: selectChat_def markAsRead_def ids_map_if)

lemma activeChat_selectChat: "activeChat (selectChat x s) = Some x"
  by (simp add: selectChat_def markAsRead_def)

lemma ids_sendMessage: "map chat_id (chats (sendMessage now s)) = map chat_id (chats s)"
  using chats_sendMessage [of now s] by (auto simp: ids_map_if)

lemma ids_fireTimer: "map chat_id (chats (fireTimer i now k s)) = map chat_id (chats s)"
  using chats_fireTimer [of i now k s] by (auto simp: ids_map_if)

lemma unread_sendMessage: "unreadNotRaised (chats s) (chats (sendMessage now s))"
  using chats_sendMessage [of now s] by (auto simp: unreadNotRaised_same unreadNotRaised_refl)

lemma unread_fireTimer: "unreadNotRaised (chats s) (chats (fireTimer i now k s))"
  using chats_fireTimer [of i now k s] by (auto simp: unreadNotRaised_same unreadNotRaised_refl)

lemma unread_step: "unreadNotRaised (chats s) (chats (step e s))"
proof (cases e)
  case MountEffect
  have "unreadNotRaised (chats s) (map (\<lambda>c. if True then c\<lparr>lastMessage := lastOf (messages c)\<rparr> else c) (chats s))"
    by (rule unreadNotRaised_same) simp
  then show ?thesis using MountEffect by (simp add: updateLastMessages_def)
next
  case (SelectChat x)
  then show ?thesis by (simp add: selectChat_def markAsRead_def unreadNotRaised_same)
next
  case (CreateNewChat ty now)
  then show ?thesis by (simp add: createNewChat_def Let_def unreadNotRaised_new)
next
  case (SetSearchQuery q)
  then show ?thesis by (simp add: unreadNotRaised_refl)
next
  case (SetNewMessage t)
  then show ?thesis by (simp add: unreadNotRaised_refl)
next
  case (SendMessage now)
  then show ?thesis by (simp add: unread_sendMessage)
next
  case (TimerFires i now k)
  then show ?thesis by (simp add: unread_fireTimer)
qed

lemma unread_run: "unreadNotRaised (chats s) (chats (run es s))"
proof (induction es arbitrary: s)
  case Nil
  show ?case by (simp add: unreadNotRaised_refl)
next
  case (Cons e es)
  have "unreadNotRaised (chats s) (chats (step e s))" by (rule unread_step)
  moreover have "unreadNotRaised (chats (step e s)) (chats (run es (step e s)))" by (rule Cons.IH)
  ultimately show ?case by (simp add: unreadNotRaised_trans [of "chats s" "chats (step e s)"])
qed

lemma filteredChats_subset: "set (filteredChats q cs) \<subseteq> set cs"
  by (simp add: filteredChats_def)

lemma step_listed:
  assumes "activeChatListed s" and "offered s e"
  shows "activeChatListed (step e s)"
proof (cases e)
  case MountEffect
  then show ?thesis using assms(1)
    by (simp add: activeChatListed_def updateLastMessages_def comp_def split: option.splits)
next
  case (SelectChat x)
  then have "x \<in> set (map chat_id (chats s))"
    using assms(2) filteredChats_subset [of "searchQuery s" "chats s"] by auto
  then show ?thesis using SelectChat
    by (simp add: activeChatListed_def ids_selectChat activeChat_selectChat del: set_map)
next
  case (CreateNewChat ty now)
  then show ?thesis by (simp add: activeChatListed_def createNewChat_def Let_def)
next
  case (SetSearchQuery q)
  then show ?thesis using assms(1) by (simp add: activeChatListed_def split: option.splits)
next
  case (SetNewMessage t)
  then show ?thesis using assms(1) by (simp add: activeChatListed_def split: option.splits)
next
  case (SendMessage now)
  then show ?thesis using assms(1)
    by (simp add: activeChatListed_def activeChat_sendMessage ids_sendMessage
        del: set_map split: option.splits)
next
  case (TimerFires i now k)
  then show ?thesis using assms(1)
    by (simp add: activeChatListed_def activeChat_fireTimer ids_fireTimer
        del: set_map split: option.splits)
qed

lemma run_listed:
  "activeChatListed s \<Longrightarrow> allOffered es s \<Longrightarrow> activeChatListed (run es s)"
proof (induction es arbitrary: s)
  case Nil
  then show ?case by simp
next
  case (Cons e es)
  then show ?case by (simp add: step_listed)
qed

lemma timers_sendMessage:
  "timers (sendMessage now s) = timers s \<or>
   timers (sendMessage now s) =
     timers s @ [\<lparr>t_activeChat = the (activeChat s), t_newMessage = newMessage s\<rparr>]"
  by (simp add: sendMessage_def Let_def split: option.split)

lemma timers_step: "userEvent e \<Longrightarrow> prefix (timers s) (timers (step e s))"
proof (cases e)
  case (SendMessage now)
  then show ?thesis using timers_sendMessage [of now s] by auto
qed (simp_all add: updateLastMessages_def selectChat_def markAsRead_def createNewChat_def Let_def)

lemma timers_run: "list_all userEvent es \<Longrightarrow> prefix (timers s) (timers (run es s))"
proof (induction es arbitrary: s)
  case Nil
  show ?case by simp
next
  case (Cons e es)
  then have "prefix (timers s) (timers (step e s))"
    and "prefix (timers (step e s)) (timers (run es (step e s)))"
    by (simp_all add: timers_step)
  then show ?case by (auto intro: prefix_order.trans)
qed

lemma prefix_nth: "prefix (xs @ [x]) ys \<Longrightarrow> length xs < length ys \<and> ys ! length xs = x"
  by (auto simp: prefix_def)

lemma send_sets_timer:
  assumes "trim (newMessage s) \<noteq> []" and "activeChat s = Some a" and "a \<noteq> []"
    and "find (\<lambda>c. chat_id c = a) (chats s) = Some c"
  shows "timers (sendMessage now s) =
     (if chat_type c = AiChat
      then timers s @ [\<lparr>t_activeChat = a, t_newMessage = newMessage s\<rparr>] else timers s)"
  using assms by (simp add: sendMessage_def Let_def falsy_def)

lemma fireTimer_chats:
  assumes "i < length (timers s)"
  shows "chats (fireTimer i now k s) =
     map (\<lambda>c. if chat_id c = t_activeChat (timers s ! i)
              then c\<lparr>messages := messages c @
                     [\<lparr>msg_id = toString (now + 1),
                       msg_text = generateAIResponse k (t_newMessage (timers s ! i)),
                       timestamp = DateObj now, sender = Ai, isRead = True\<rparr>]\<rparr>
              else c) (chats s)"
  using assms by (simp add: fireTimer_def timeoutCallback_def Let_def)

lemma reply_ChatApp:
  assumes "activeChat s = Some a" and "a \<noteq> []"
    and "find (\<lambda>c. chat_id c = a) (chats s) = Some c"
    and "trim (newMessage s) \<noteq> []"
    and "chat_type c = AiChat" and "list_all userEvent es"
  shows "length (timers s) < length (timers (run es (sendMessage now s))) \<and>
     (\<exists>m. sender m = Ai \<and>
        chats (fireTimer (length (timers s)) later k (run es (sendMessage now s))) =
          map (\<lambda>c. if chat_id c = a then c\<lparr>messages := messages c @ [m]\<rparr> else c)
            (chats (run es (sendMessage now s))))"
proof -
  let ?t = "\<lparr>t_activeChat = a, t_newMessage = newMessage s\<rparr>"
  let ?s1 = "run es (sendMessage now s)"
  let ?m = "\<lparr>msg_id = toString (later + 1),
             msg_text = generateAIResponse k (t_newMessage (timers ?s1 ! length (timers s))),
             timestamp = DateObj later, sender = Ai, isRead = True\<rparr>"
  have "timers (sendMessage now s) = timers s @ [?t]"
    using assms by (simp add: send_sets_timer)
  then have "prefix (timers s @ [?t]) (timers ?s1)"
    using timers_run [OF assms(6), of "sendMessage now s"] by simp
  then have i: "length (timers s) < length (timers ?s1)"
    and t: "timers ?s1 ! length (timers s) = ?t"
    by (simp_all add: prefix_nth)
  have "chats (fireTimer (length (timers s)) later k ?s1) =
      map (\<lambda>c. if chat_id c = a then c\<lparr>messages := messages c @ [?m]\<rparr> else c) (chats ?s1)"
    using fireTimer_chats [OF i, of later k] by (simp add: t)
  moreover have "sender ?m = Ai" by simp
  ultimately show ?thesis using i by blast
qed

lemma lastMessage_sendMessage:
  "map lastMessage (chats (sendMessage now s)) = map lastMessage (chats s)"
  using chats_sendMessage [of now s] by (auto simp: ids_map_if)

lemma lastMessage_fireTimer:
  "map lastMessage (chats (fireTimer i now k s)) = map lastMessage (chats s)"
  using chats_fireTimer [of i now k s] by (auto simp: ids_map_if)

section \<open>What the operations of the Chat route change\<close>

lemma markReadR_throws:
  "messagesOf (messagesR s) x = Inl e \<Longrightarrow> markReadR x s = Inl e"
  by (simp add: markReadR_def)

lemma markReadR_returns:
  "messagesOf (messagesR s) x = Inr ms \<Longrightarrow>
   markReadR x s =
     Inr (s\<lparr>messagesR :=
              setKey x (map (\<lambda>msg. if senderR msg \<noteq> User then msg\<lparr>statusR := Read\<rparr> else msg) ms)
                (messagesR s),
            chatsR := map (\<lambda>chat. if chat_idR chat = x
                             then chat\<lparr>unreadCountR := 0\<rparr> else chat) (chatsR s)\<rparr>)"
  by (simp add: markReadR_def)

lemma handleChatSelect_throws:
  "messagesOf (messagesR s) x = Inl e \<Longrightarrow> handleChatSelect x s = Inl e"
  by (simp add: handleChatSelect_def markReadR_def)

lemma handleChatSelect_returns:
  "messagesOf (messagesR s) x = Inr ms \<Longrightarrow>
   handleChatSelect x s =
     Inr (s\<lparr>activeChatR := Some x,
            showSidebar := (if isMobile s then False else showSidebar s),
            messagesR :=
              setKey x (map (\<lambda>msg. if senderR msg \<noteq> User then msg\<lparr>statusR := Read\<rparr> else msg) ms)
                (messagesR s),
            chatsR := map (\<lambda>chat. if chat_idR chat = x
                             then chat\<lparr>unreadCountR := 0\<rparr> else chat) (chatsR s)\<rparr>)"
  by (simp add: handleChatSelect_def markReadR_def)

lemma handleSendMessage_returns:
  assumes "activeChatR s = Some a" and "a \<noteq> []" and "messagesOf (messagesR s) a = Inr old"
  shows "\<exists>s'. handleSendMessage txt now s = Inr s' \<and>
     activeChatR s' = Some a \<and>
     map chat_idR (chatsR s') = map chat_idR (chatsR s) \<and>
     inputText s' = inputText s \<and>
     messagesR s' =
       setKey a (old @ [\<lparr>idR = toString now, textR = txt, senderR = User,
                          timestampR = DateObj now, statusR = Sent\<rparr>]) (messagesR s) \<and>
     (awaiting s' = awaiting s \<or>
      awaiting s' = awaiting s @
        [\<lparr>r_activeChat = a, r_text = txt,
          r_newMessage = \<lparr>idR = toString now, textR = txt, senderR = User,
                           timestampR = DateObj now, statusR = Sent\<rparr>\<rparr>])"
  using assms
  by (simp add: handleSendMessage_def falsy_def Let_def ids_map_if split: option.split)

lemma handleSend_returns:
  assumes "activeChatListedR s" and "plainIds s"
  shows "\<exists>s'. handleSend now s = Inr s' \<and> activeChatR s' = activeChatR s \<and>
     map chat_idR (chatsR s') = map chat_idR (chatsR s) \<and>
     list_all (\<lambda>p. r_activeChat p \<notin> set objectPrototypeKeys) (awaiting s')"
proof (cases "trim (inputText s) \<noteq> [] \<and> \<not> falsy (activeChatR s)")
  case False
  then show ?thesis
    using assms(2) by (auto simp: handleSend_def handleSendMessage_def plainIds_def)
next
  case True
  then obtain a where a: "activeChatR s = Some a" "a \<noteq> []"
    by (auto simp: falsy_def split: option.splits)
  then have "a \<in> set (map chat_idR (chatsR s))"
    using assms(1) by (simp add: activeChatListedR_def)
  then have p: "a \<notin> set objectPrototypeKeys"
    using assms(2) by (auto simp: plainIds_def list_all_iff)
  then obtain old where "messagesOf (messagesR s) a = Inr old"
    by (simp add: messagesOf_plain)
  from handleSendMessage_returns [OF a this, of "trim (inputText s)" now]
  obtain s' where s': "handleSendMessage (trim (inputText s)) now s = Inr s'"
    "activeChatR s' = Some a" "map chat_idR (chatsR s') = map chat_idR (chatsR s)"
    "awaiting s' = awaiting s \<or>
      awaiting s' = awaiting s @
        [\<lparr>r_activeChat = a, r_text = trim (inputText s),
          r_newMessage = \<lparr>idR = toString now, textR = trim (inputText s), senderR = User,
                           timestampR = DateObj now, statusR = Sent\<rparr>\<rparr>]"
    by blast
  have "list_all (\<lambda>p. r_activeChat p \<notin> set objectPrototypeKeys) (awaiting s')"
    using s'(4) assms(2) p by (auto simp: plainIds_def)
  then show ?thesis
    using True s'(1-3) a by (simp add: handleSend_def)
qed

lemma fireReply_returns:
  assumes "plainIds s"
  shows "\<exists>s'. fireReply i now k s = Inr s' \<and> activeChatR s' = activeChatR s \<and>
     map chat_idR (chatsR s') = map chat_idR (chatsR s) \<and>
     list_all (\<lambda>p. r_activeChat p \<notin> set objectPrototypeKeys) (awaiting s')"
proof (cases "i < length (awaiting s)")
  case False
  then show ?thesis using assms by (simp add: fireReply_def plainIds_def)
next
  case True
  let ?P = "\<lambda>p. r_activeChat p \<notin> set objectPrototypeKeys"
  have all: "list_all ?P (awaiting s)" using assms by (simp add: plainIds_def)
  then have "?P (awaiting s ! i)" using True by (simp add: list_all_length)
  then obtain old where
    old: "messagesOf (messagesR s) (r_activeChat (awaiting s ! i)) = Inr old"
    by (simp add: messagesOf_plain)
  have rest: "list_all ?P (take i (awaiting s) @ drop (Suc i) (awaiting s))"
    using all by (auto simp: list_all_iff dest: in_set_takeD in_set_dropD)
  show ?thesis
    using True old rest
    by (simp add: fireReply_def resumeReply_def Let_def ids_map_if)
qed

lemma plain_same_ids:
  assumes "map chat_idR cs' = map chat_idR cs" and "list_all (\<lambda>c. chat_idR c \<notin> S) cs"
  shows "list_all (\<lambda>c. chat_idR c \<notin> S) cs'"
proof -
  have "list_all (\<lambda>k. k \<notin> S) (map chat_idR cs)"
    using assms(2) by (simp add: list_all_iff)
  then have "list_all (\<lambda>k. k \<notin> S) (map chat_idR cs')"
    by (simp only: assms(1))
  then show ?thesis by (simp add: list_all_iff)
qed

lemma filteredChatsR_subset: "set (filteredChatsR q cs) \<subseteq> set cs"
  by (simp add: filteredChatsR_def)

lemma stepR_returns:
  assumes "activeChatListedR s" and "plainIds s" and "offeredR s e"
  shows "\<exists>s'. stepR e s = Inr s' \<and> activeChatListedR s' \<and> plainIds s'"
proof (cases e)
  case (ChatSelect x)
  then have x: "x \<in> set (map chat_idR (chatsR s))"
    using assms(3) filteredChatsR_subset [of "searchQueryR s" "chatsR s"] by auto
  then have "x \<notin> set objectPrototypeKeys"
    using assms(2) by (auto simp: plainIds_def list_all_iff)
  then obtain ms where ms: "messagesOf (messagesR s) x = Inr ms"
    by (simp add: messagesOf_plain)
  obtain s' where s': "handleChatSelect x s = Inr s'" "activeChatR s' = Some x"
    "map chat_idR (chatsR s') = map chat_idR (chatsR s)" "awaiting s' = awaiting s"
    by (simp add: handleChatSelect_returns [OF ms] ids_map_if)
  have "set (map chat_idR (chatsR s')) = set (map chat_idR (chatsR s))"
    by (simp only: s'(3))
  then have ids: "chat_idR ` set (chatsR s') = chat_idR ` set (chatsR s)" by simp
  have "activeChatListedR s'"
    using x s'(2) ids by (simp add: activeChatListedR_def)
  moreover have "plainIds s'"
    using assms(2) s'(4) plain_same_ids [OF s'(3)] by (simp add: plainIds_def)
  ultimately show ?thesis using ChatSelect s'(1) by simp
next
  case (NewChat now)
  then show ?thesis
    using assms(2)
    by (simp add: handleNewChat_def Let_def activeChatListedR_def plainIds_def created_id_plain)
next
  case (SearchChange q)
  then show ?thesis using assms(1,2)
    by (simp add: activeChatListedR_def plainIds_def split: option.splits)
next
  case (SetInputText t)
  then show ?thesis using assms(1,2)
    by (simp add: activeChatListedR_def plainIds_def split: option.splits)
next
  case (Send now)
  from handleSend_returns [OF assms(1,2), of now]
  obtain s' where s': "handleSend now s = Inr s'" "activeChatR s' = activeChatR s"
    "map chat_idR (chatsR s') = map chat_idR (chatsR s)"
    "list_all (\<lambda>p. r_activeChat p \<notin> set objectPrototypeKeys) (awaiting s')"
    by blast
  have "set (map chat_idR (chatsR s')) = set (map chat_idR (chatsR s))"
    by (simp only: s'(3))
  then have ids: "chat_idR ` set (chatsR s') = chat_idR ` set (chatsR s)" by simp
  have "activeChatListedR s'"
    using assms(1) s'(2) ids by (simp add: activeChatListedR_def split: option.splits)
  moreover have "plainIds s'"
    using assms(2) s'(4) plain_same_ids [OF s'(3)] by (simp add: plainIds_def)
  ultimately show ?thesis using Send s'(1) by simp
next
  case (ReplyResolves i now k)
  from fireReply_returns [OF assms(2), of i now k]
  obtain s' where s': "fireReply i now k s = Inr s'" "activeChatR s' = activeChatR s"
    "map chat_idR (chatsR s') = map chat_idR (chatsR s)"
    "list_all (\<lambda>p. r_activeChat p \<notin> set objectPrototypeKeys) (awaiting s')"
    by blast
  have "set (map chat_idR (chatsR s')) = set (map chat_idR (chatsR s))"
    by (simp only: s'(3))
  then have ids: "chat_idR ` set (chatsR s') = chat_idR ` set (chatsR s)" by simp
  have "activeChatListedR s'"
    using assms(1) s'(2) ids by (simp add: activeChatListedR_def split: option.splits)
  moreover have "plainIds s'"
    using assms(2) s'(4) plain_same_ids [OF s'(3)] by (simp add: plainIds_def)
  ultimately show ?thesis using ReplyResolves s'(1) by simp
next
  case Back
  then show ?thesis using assms(1,2)
    by (simp add: activeChatListedR_def plainIds_def split: option.splits)
next
  case (Resize w)
  then show ?thesis using assms(1,2)
    by (simp add: activeChatListedR_def plainIds_def split: option.splits)
qed

lemma runR_returns:
  "activeChatListedR s \<Longrightarrow> plainIds s \<Longrightarrow> allOfferedR es s \<Longrightarrow>
   \<exists>s'. runR es s = Inr s' \<and> activeChatListedR s' \<and> plainIds s'"
proof (induction es arbitrary: s)
  case Nil
  then show ?case by simp
next
  case (Cons e es)
  from Cons.prems have "offeredR s e" by simp
  from stepR_returns [OF Cons.prems(1,2) this]
  obtain s1 where s1: "stepR e s = Inr s1" "activeChatListedR s1" "plainIds s1" by blast
  then have "allOfferedR es s1" using Cons.prems(3) by simp
  from Cons.IH [OF s1(2,3) this] show ?case using s1(1) by simp
qed

section \<open>The search filter\<close>

lemma name_contains_query_examples:
  "containsIgnoreCase ''ChatGPT'' ''CHAT''" "containsIgnoreCase ''John Doe'' ''DOE''"
proof -
  have "''ChatGPT'' = [] @ ''Chat'' @ ''GPT'' \<and> eqIgnoreCase ''Chat'' ''CHAT''"
    by (simp add: eqIgnoreCase_def sameLetter_def capitals_def smalls_def)
  then show "containsIgnoreCase ''ChatGPT'' ''CHAT''"
    unfolding containsIgnoreCase_def by blast
  have "''John Doe'' = ''John '' @ ''Doe'' @ [] \<and> eqIgnoreCase ''Doe'' ''DOE''"
    by (simp add: eqIgnoreCase_def sameLetter_def capitals_def smalls_def)
  then show "containsIgnoreCase ''John Doe'' ''DOE''"
    unfolding containsIgnoreCase_def by blast
qed

text \<open>
  C8. In both components, \<^verbatim>\<open>filteredChats\<close> with the empty query is the whole chat
  list, and with a query \<open>q\<close> it is the list of the chats whose name contains \<open>q\<close>
  case-insensitively, in the order of the chat list. Case-insensitively is meant by the
  table of the letters, not by \<^verbatim>\<open>toLowerCase\<close>.
\<close>

theorem filteredChats_case_insensitive_subset:
  "filteredChats [] cs = cs \<and>
   filteredChats q cs = filter (\<lambda>c. containsIgnoreCase (name c) q) cs \<and>
   subseq (filteredChats q cs) cs \<and>
   filteredChatsR [] rs = rs \<and>
   filteredChatsR q rs = filter (\<lambda>c. containsIgnoreCase (nameR c) q) rs \<and>
   subseq (filteredChatsR q rs) rs"
proof -
  have e: "filteredChats [] cs = cs" "filteredChatsR [] rs = rs"
    by (simp_all add: filteredChats_def filteredChatsR_def toLowerCase_def includesStr_Nil)
  have f: "filteredChats q cs = filter (\<lambda>c. containsIgnoreCase (name c) q) cs"
    "filteredChatsR q rs = filter (\<lambda>c. containsIgnoreCase (nameR c) q) rs"
    by (simp_all add: filteredChats_def filteredChatsR_def includes_lower_iff)
  have g: "subseq (filteredChats q cs) cs" "subseq (filteredChatsR q rs) rs"
    by (simp_all add: filteredChats_def filteredChatsR_def)
  from e f g show ?thesis by blast
qed

theorem filteredChats_case_insensitive_subset_witness:
  "map name (filteredChats ''CHAT'' (mockChats 0)) = [''ChatGPT''] \<and>
   map name (filteredChats ''j'' (mockChats 0)) = [''John Doe'', ''Jane Smith''] \<and>
   map nameR (filteredChatsR ''DOE'' mockChatsR) = [''John Doe''] \<and>
   map name (filter (\<lambda>c. containsIgnoreCase (name c) ''CHAT'') (mockChats 0)) = [''ChatGPT''] \<and>
   map nameR (filter (\<lambda>c. containsIgnoreCase (nameR c) ''DOE'') mockChatsR) = [''John Doe''] \<and>
   containsIgnoreCase ''ChatGPT'' ''CHAT'' \<and> containsIgnoreCase ''John Doe'' ''DOE''"
proof -
  have e: "map name (filteredChats ''CHAT'' (mockChats 0)) = [''ChatGPT'']"
    "map name (filteredChats ''j'' (mockChats 0)) = [''John Doe'', ''Jane Smith'']"
    "map nameR (filteredChatsR ''DOE'' mockChatsR) = [''John Doe'']"
    by code_simp+
  have f: "filteredChats ''CHAT'' (mockChats 0)
      = filter (\<lambda>c. containsIgnoreCase (name c) ''CHAT'') (mockChats 0)"
    "filteredChatsR ''DOE'' mockChatsR
      = filter (\<lambda>c. containsIgnoreCase (nameR c) ''DOE'') mockChatsR"
    using filteredChats_case_insensitive_subset
        [where cs = "mockChats 0" and q = "''CHAT''" and rs = mockChatsR]
      filteredChats_case_insensitive_subset
        [where cs = "mockChats 0" and q = "''DOE''" and rs = mockChatsR]
    by blast+
  have g: "map name (filter (\<lambda>c. containsIgnoreCase (name c) ''CHAT'') (mockChats 0)) = [''ChatGPT'']"
    "map nameR (filter (\<lambda>c. containsIgnoreCase (nameR c) ''DOE'') mockChatsR) = [''John Doe'']"
    using e(1,3) by (simp_all only: f)
  show ?thesis
    using e g name_contains_query_examples by (intro conjI)
qed

section \<open>Sending\<close>

text \<open>
  C6 as stated fails in the Chat route: \<^verbatim>\<open>handleSendMessage(text)\<close> does not look at
  its text. Called with one space in the first chat, it stores a message whose text is
  the space and leaves a call waiting for the reply.
\<close>

theorem handleSendMessage_blank_counterexample:
  "list_all isWhiteSpace '' '' \<and>
   map_sum id (map textR)
     (thenE (thenE (handleChatSelect ''1'' (initialStateR [])) (handleSendMessage '' '' 1000))
        (messagesIn ''1'')) = Inr ['' ''] \<and>
   map_sum id (map r_text)
     (map_sum id awaiting
        (thenE (handleChatSelect ''1'' (initialStateR [])) (handleSendMessage '' '' 1000)))
     = Inr ['' '']"
  by (simp add: initialStateR_def mockChatsR_def handleChatSelect_def markReadR_def
      handleSend_def handleSendMessage_def fireReply_def resumeReply_def messagesOf_def
      messagesIn_def thenE_def objectPrototypeKeys_def trim_def isWhiteSpace_def falsy_def
      Let_def)

text \<open>
  C6, as the code has it. Sending an empty text or a text of white space only changes
  nothing: in ChatApp \<^verbatim>\<open>sendMessage\<close> returns at once, and in the Chat route
  \<^verbatim>\<open>handleSend\<close> of the message box, the only caller of \<^verbatim>\<open>handleSendMessage\<close>,
  does not call it. The state, and so the message sequence of the active chat, is the
  one before. \<^verbatim>\<open>handleSendMessage\<close> itself appends a message with the text it is
  given, blank or not.
\<close>

theorem blank_text_is_not_sent:
  assumes "list_all isWhiteSpace txt"
  shows "sendMessage now (s\<lparr>newMessage := txt\<rparr>) = s\<lparr>newMessage := txt\<rparr> \<and>
     handleSend now (r\<lparr>inputText := txt\<rparr>) = Inr (r\<lparr>inputText := txt\<rparr>) \<and>
     (activeChatR r = Some a \<and> a \<noteq> [] \<and> messagesOf (messagesR r) a = Inr old \<longrightarrow>
        (\<exists>r'. handleSendMessage txt now r = Inr r' \<and>
           messagesOf (messagesR r') a =
             Inr (old @ [\<lparr>idR = toString now, textR = txt, senderR = User,
                           timestampR = DateObj now, statusR = Sent\<rparr>])))"
proof -
  have 1: "sendMessage now (s\<lparr>newMessage := txt\<rparr>) = s\<lparr>newMessage := txt\<rparr>"
    using assms by (simp add: sendMessage_def trim_empty_iff)
  have 2: "handleSend now (r\<lparr>inputText := txt\<rparr>) = Inr (r\<lparr>inputText := txt\<rparr>)"
    using assms by (simp add: handleSend_def trim_empty_iff)
  have 3: "activeChatR r = Some a \<and> a \<noteq> [] \<and> messagesOf (messagesR r) a = Inr old \<longrightarrow>
        (\<exists>r'. handleSendMessage txt now r = Inr r' \<and>
           messagesOf (messagesR r') a =
             Inr (old @ [\<lparr>idR = toString now, textR = txt, senderR = User,
                           timestampR = DateObj now, statusR = Sent\<rparr>]))"
  proof
    assume h: "activeChatR r = Some a \<and> a \<noteq> [] \<and> messagesOf (messagesR r) a = Inr old"
    then obtain r' where "handleSendMessage txt now r = Inr r'"
      "messagesR r' = setKey a (old @ [\<lparr>idR = toString now, textR = txt, senderR = User,
                          timestampR = DateObj now, statusR = Sent\<rparr>]) (messagesR r)"
      using handleSendMessage_returns [of r a old "txt" now] by blast
    then show "\<exists>r'. handleSendMessage txt now r = Inr r' \<and>
           messagesOf (messagesR r') a =
             Inr (old @ [\<lparr>idR = toString now, textR = txt, senderR = User,
                           timestampR = DateObj now, statusR = Sent\<rparr>])"
      by (simp add: messagesOf_setKey)
  qed
  show ?thesis by (rule conjI [OF 1 conjI [OF 2 3]])
qed

theorem blank_text_is_not_sent_witness:
  "list_all isWhiteSpace '' '' \<and>
   sendMessage 1000 (selectChat ''1'' (initialState (mockChats 0))\<lparr>newMessage := '' ''\<rparr>)
     = selectChat ''1'' (initialState (mockChats 0))\<lparr>newMessage := '' ''\<rparr> \<and>
   handleSend 1000 (initialStateR [(''1'', [])]\<lparr>activeChatR := Some ''1'', inputText := '' ''\<rparr>)
     = Inr (initialStateR [(''1'', [])]\<lparr>activeChatR := Some ''1'', inputText := '' ''\<rparr>) \<and>
   map_sum id (map textR)
     (thenE (handleSendMessage '' '' 1000 (initialStateR [(''1'', [])]\<lparr>activeChatR := Some ''1''\<rparr>))
        (messagesIn ''1'')) = Inr ['' '']"
proof -
  let ?r = "initialStateR [(''1'', [])]\<lparr>activeChatR := Some ''1''\<rparr>"
  have w: "list_all isWhiteSpace '' ''"
    by (simp add: isWhiteSpace_def)
  note t = blank_text_is_not_sent [OF w, where now = 1000
      and s = "selectChat ''1'' (initialState (mockChats 0))"
      and r = "initialStateR [(''1'', [])]\<lparr>activeChatR := Some ''1''\<rparr>"
      and a = "''1''" and old = "[]"]
  have h: "activeChatR ?r = Some ''1'' \<and> ''1'' \<noteq> [] \<and> messagesOf (messagesR ?r) ''1'' = Inr []"
    by (simp add: initialStateR_def messagesOf_def)
  from t [THEN conjunct2, THEN conjunct2, THEN mp, OF h]
  obtain r' where r': "handleSendMessage '' '' 1000 ?r = Inr r'"
    "messagesOf (messagesR r') ''1'' =
       Inr ([] @ [\<lparr>idR = toString 1000, textR = '' '', senderR = User,
                    timestampR = DateObj 1000, statusR = Sent\<rparr>])"
    by blast
  have 4: "map_sum id (map textR) (thenE (handleSendMessage '' '' 1000 ?r) (messagesIn ''1''))
      = Inr ['' '']"
    by (simp add: r' thenE_def messagesIn_def)
  have 3: "handleSend 1000 (?r\<lparr>inputText := '' ''\<rparr>) = Inr (?r\<lparr>inputText := '' ''\<rparr>)"
    by (rule t [THEN conjunct2, THEN conjunct1])
  show ?thesis
    using w t [THEN conjunct1] 3 4 by simp
qed

section \<open>Selecting a chat and marking it read\<close>

text \<open>
  C10. \<^verbatim>\<open>markAsRead\<close> of ChatApp changes nothing of the state but the chats; a chat
  with another id stays as it is, and a chat with the id keeps all its fields but
  \<^verbatim>\<open>unreadCount\<close> and \<^verbatim>\<open>messages\<close>, and its messages keep their number, their
  order and all their fields but \<^verbatim>\<open>isRead\<close>. The two updates of
  \<^verbatim>\<open>handleChatSelect\<close> in the Chat route do the same with \<^verbatim>\<open>unreadCount\<close> and
  \<^verbatim>\<open>status\<close>, and leave the message lists of the other chat ids alone; when the
  look-up of the messages throws, they give no state at all.
\<close>

theorem markAsRead_changes_read_markers_only:
  "markAsRead chatId s = s\<lparr>chats := chats (markAsRead chatId s)\<rparr> \<and>
   list_all2 (\<lambda>c c'. if chat_id c = chatId
                then c' = c\<lparr>unreadCount := unreadCount c', messages := messages c'\<rparr> \<and>
                     list_all2 (\<lambda>m m'. m' = m\<lparr>isRead := isRead m'\<rparr>) (messages c) (messages c')
                else c' = c)
     (chats s) (chats (markAsRead chatId s)) \<and>
   (messagesOf (messagesR r) chatId = Inl TypeError \<longrightarrow> markReadR chatId r = Inl TypeError) \<and>
   (messagesOf (messagesR r) chatId = Inr ms \<longrightarrow>
      (\<exists>r'. markReadR chatId r = Inr r' \<and>
         r' = r\<lparr>messagesR := messagesR r', chatsR := chatsR r'\<rparr> \<and>
         list_all2 (\<lambda>c c'. if chat_idR c = chatId
                      then c' = c\<lparr>unreadCountR := unreadCountR c'\<rparr> else c' = c)
           (chatsR r) (chatsR r') \<and>
         (\<exists>ms'. messagesOf (messagesR r') chatId = Inr ms' \<and>
            list_all2 (\<lambda>m m'. m' = m\<lparr>statusR := statusR m'\<rparr>) ms ms') \<and>
         (\<forall>k. k \<noteq> chatId \<longrightarrow> map_of (messagesR r') k = map_of (messagesR r) k)))"
proof -
  have a: "markAsRead chatId s = s\<lparr>chats := chats (markAsRead chatId s)\<rparr>"
    by (simp add: markAsRead_def)
  have b: "list_all2 (\<lambda>c c'. if chat_id c = chatId
                then c' = c\<lparr>unreadCount := unreadCount c', messages := messages c'\<rparr> \<and>
                     list_all2 (\<lambda>m m'. m' = m\<lparr>isRead := isRead m'\<rparr>) (messages c) (messages c')
                else c' = c)
     (chats s) (chats (markAsRead chatId s))"
    by (simp add: markAsRead_def list_all2_map2 list_all2_same)
  have c: "messagesOf (messagesR r) chatId = Inl TypeError \<longrightarrow> markReadR chatId r = Inl TypeError"
    by (simp add: markReadR_throws)
  have d: "messagesOf (messagesR r) chatId = Inr ms \<longrightarrow>
      (\<exists>r'. markReadR chatId r = Inr r' \<and>
         r' = r\<lparr>messagesR := messagesR r', chatsR := chatsR r'\<rparr> \<and>
         list_all2 (\<lambda>c c'. if chat_idR c = chatId
                      then c' = c\<lparr>unreadCountR := unreadCountR c'\<rparr> else c' = c)
           (chatsR r) (chatsR r') \<and>
         (\<exists>ms'. messagesOf (messagesR r') chatId = Inr ms' \<and>
            list_all2 (\<lambda>m m'. m' = m\<lparr>statusR := statusR m'\<rparr>) ms ms') \<and>
         (\<forall>k. k \<noteq> chatId \<longrightarrow> map_of (messagesR r') k = map_of (messagesR r) k))"
    by (simp add: markReadR_returns messagesOf_setKey map_of_setKey list_all2_map2
        list_all2_same)
  show ?thesis by (rule conjI [OF a conjI [OF b conjI [OF c d]]])
qed

theorem markAsRead_changes_read_markers_only_witness:
  "chats (markAsRead ''2'' (initialState (mockChats 0))) ! 0 = mockChats 0 ! 0 \<and>
   messages (chats (markAsRead ''2'' (initialState (mockChats 0))) ! 1)
     = map (\<lambda>m. m\<lparr>isRead := True\<rparr>) (messages (mockChats 0 ! 1)) \<and>
   messagesOf (messagesR (initialStateR [(''1'', [])])) ''constructor'' = Inl TypeError \<and>
   markReadR ''constructor'' (initialStateR [(''1'', [])]) = Inl TypeError \<and>
   messagesOf (messagesR (initialStateR [(''1'', [])])) ''2'' = Inr [] \<and>
   map_sum id chatsR (markReadR ''2'' (initialStateR [(''1'', [])]))
     = Inr (mockChatsR[1 := (mockChatsR ! 1)\<lparr>unreadCountR := 0\<rparr>]) \<and>
   thenE (markReadR ''2'' (initialStateR [(''1'', [])])) (messagesIn ''1'') = Inr []"
proof -
  let ?r = "initialStateR [(''1'', [])]"
  have h1: "messagesOf (messagesR ?r) ''constructor'' = Inl TypeError"
    by (simp add: initialStateR_def messagesOf_def objectPrototypeKeys_def)
  have h2: "messagesOf (messagesR ?r) ''2'' = Inr []"
    by (simp add: initialStateR_def messagesOf_def objectPrototypeKeys_def)
  note t1 = markAsRead_changes_read_markers_only
    [where chatId = "''constructor''" and s = "initialState (mockChats 0)"
       and r = "initialStateR [(''1'', [])]" and ms = "[]"]
  note t2 = markAsRead_changes_read_markers_only
    [where chatId = "''2''" and s = "initialState (mockChats 0)"
       and r = "initialStateR [(''1'', [])]" and ms = "[]"]
  have w1: "markReadR ''constructor'' ?r = Inl TypeError"
    using t1 [THEN conjunct2, THEN conjunct2, THEN conjunct1] h1 by (rule mp)
  from t2 [THEN conjunct2, THEN conjunct2, THEN conjunct2, THEN mp, OF h2]
  obtain r' where r': "markReadR ''2'' ?r = Inr r'"
    "\<forall>k. k \<noteq> ''2'' \<longrightarrow> map_of (messagesR r') k = map_of (messagesR ?r) k"
    by blast
  have "map_of (messagesR r') ''1'' = Some []"
    using r'(2) by (simp add: initialStateR_def)
  then have w2: "thenE (markReadR ''2'' ?r) (messagesIn ''1'') = Inr []"
    by (simp add: r'(1) thenE_def messagesIn_def messagesOf_def)
  have w3: "map_sum id chatsR (markReadR ''2'' ?r)
     = Inr (mockChatsR[1 := (mockChatsR ! 1)\<lparr>unreadCountR := 0\<rparr>])"
    by (simp add: markReadR_def initialStateR_def mockChatsR_def messagesOf_def
        objectPrototypeKeys_def)
  have w4: "chats (markAsRead ''2'' (initialState (mockChats 0))) ! 0 = mockChats 0 ! 0"
    "messages (chats (markAsRead ''2'' (initialState (mockChats 0))) ! 1)
     = map (\<lambda>m. m\<lparr>isRead := True\<rparr>) (messages (mockChats 0 ! 1))"
    by (simp_all add: markAsRead_def initialState_def mockChats_def)
  show ?thesis
    using w4 h1 w1 h2 w3 w2 by (intro conjI)
qed

text \<open>
  C5, as the code has it. After a chat is selected it is the active chat, every chat with
  its id has the unread count 0, and in ChatApp every message of it is read. In the Chat
  route the messages that the user did not send have the status \<^verbatim>\<open>read\<close>, and the
  messages that the user sent are as they were; this when the look-up
  \<^verbatim>\<open>messages[chatId] || []\<close> gives a list, as it does for every id that has a
  stored list or is not the name of a property of \<^verbatim>\<open>Object.prototype\<close>. When it
  does not, \<^verbatim>\<open>handleChatSelect\<close> throws a TypeError.
\<close>

theorem selectChat_marks_chat_read:
  "activeChat (selectChat chatId s) = Some chatId \<and>
   map chat_id (chats (selectChat chatId s)) = map chat_id (chats s) \<and>
   (\<forall>c \<in> set (chats (selectChat chatId s)).
      chat_id c = chatId \<longrightarrow> unreadCount c = 0 \<and> (\<forall>m \<in> set (messages c). isRead m)) \<and>
   (messagesOf (messagesR r) chatId = Inr ms \<longrightarrow>
      (\<exists>r'. handleChatSelect chatId r = Inr r' \<and>
         activeChatR r' = Some chatId \<and>
         map chat_idR (chatsR r') = map chat_idR (chatsR r) \<and>
         (\<forall>c \<in> set (chatsR r'). chat_idR c = chatId \<longrightarrow> unreadCountR c = 0) \<and>
         messagesOf (messagesR r') chatId =
           Inr (map (\<lambda>m. if senderR m = User then m else m\<lparr>statusR := Read\<rparr>) ms))) \<and>
   (messagesOf (messagesR r) chatId = Inl TypeError \<longrightarrow>
      handleChatSelect chatId r = Inl TypeError)"
proof -
  have a: "activeChat (selectChat chatId s) = Some chatId"
    by (simp add: selectChat_def markAsRead_def)
  have a': "map chat_id (chats (selectChat chatId s)) = map chat_id (chats s)"
    by (simp add: selectChat_def markAsRead_def ids_map_if)
  have b: "\<forall>c \<in> set (chats (selectChat chatId s)).
      chat_id c = chatId \<longrightarrow> unreadCount c = 0 \<and> (\<forall>m \<in> set (messages c). isRead m)"
    by (simp add: selectChat_def markAsRead_def ball_map_if del: set_map) simp
  have c: "messagesOf (messagesR r) chatId = Inr ms \<longrightarrow>
      (\<exists>r'. handleChatSelect chatId r = Inr r' \<and>
         activeChatR r' = Some chatId \<and>
         map chat_idR (chatsR r') = map chat_idR (chatsR r) \<and>
         (\<forall>c \<in> set (chatsR r'). chat_idR c = chatId \<longrightarrow> unreadCountR c = 0) \<and>
         messagesOf (messagesR r') chatId =
           Inr (map (\<lambda>m. if senderR m = User then m else m\<lparr>statusR := Read\<rparr>) ms))"
    by (simp add: handleChatSelect_returns messagesOf_setKey ids_map_if ball_map_if
        del: set_map cong: if_cong)
  have d: "messagesOf (messagesR r) chatId = Inl TypeError \<longrightarrow>
      handleChatSelect chatId r = Inl TypeError"
    by (simp add: handleChatSelect_throws)
  show ?thesis by (rule conjI [OF a conjI [OF a' conjI [OF b conjI [OF c d]]]])
qed

theorem selectChat_marks_chat_read_witness:
  "chat_id (chats (selectChat ''2'' (initialState (mockChats 0))) ! 1) = ''2'' \<and>
   unreadCount (chats (selectChat ''2'' (initialState (mockChats 0))) ! 1) = 0 \<and>
   list_all isRead (messages (chats (selectChat ''2'' (initialState (mockChats 0))) ! 1)) \<and>
   messagesOf (messagesR (initialStateR [])) ''2'' = Inr [] \<and>
   map_sum id activeChatR (handleChatSelect ''2'' (initialStateR [])) = Inr (Some ''2'') \<and>
   map_sum id (map unreadCountR) (map_sum id chatsR (handleChatSelect ''2'' (initialStateR [])))
     = Inr [0, 0, 0] \<and>
   messagesOf (messagesR (initialStateR [])) ''constructor'' = Inl TypeError \<and>
   handleChatSelect ''constructor'' (initialStateR []) = Inl TypeError"
proof -
  have h: "messagesOf (messagesR (initialStateR [])) ''2'' = Inr []"
    by (simp add: initialStateR_def messagesOf_def objectPrototypeKeys_def)
  have h': "messagesOf (messagesR (initialStateR [])) ''constructor'' = Inl TypeError"
    by (simp add: initialStateR_def messagesOf_def objectPrototypeKeys_def)
  note t' = selectChat_marks_chat_read
    [where chatId = "''constructor''" and s = "initialState (mockChats 0)"
       and r = "initialStateR []" and ms = "[]"]
  have w0: "handleChatSelect ''constructor'' (initialStateR []) = Inl TypeError"
    using t' [THEN conjunct2, THEN conjunct2, THEN conjunct2, THEN conjunct2] h' by (rule mp)
  note t = selectChat_marks_chat_read
    [where chatId = "''2''" and s = "initialState (mockChats 0)" and r = "initialStateR []"
       and ms = "[]"]
  from t [THEN conjunct2, THEN conjunct2, THEN conjunct2, THEN conjunct1, THEN mp, OF h]
  obtain r' where r': "handleChatSelect ''2'' (initialStateR []) = Inr r'"
    "activeChatR r' = Some ''2''"
    by (elim exE conjE) (rule that)
  have w1: "map_sum id activeChatR (handleChatSelect ''2'' (initialStateR [])) = Inr (Some ''2'')"
    by (simp add: r')
  have w2: "map_sum id (map unreadCountR)
      (map_sum id chatsR (handleChatSelect ''2'' (initialStateR []))) = Inr [0, 0, 0]"
    by (simp add: handleChatSelect_def markReadR_def initialStateR_def mockChatsR_def
        messagesOf_def objectPrototypeKeys_def)
  have w3: "chat_id (chats (selectChat ''2'' (initialState (mockChats 0))) ! 1) = ''2''"
    "unreadCount (chats (selectChat ''2'' (initialState (mockChats 0))) ! 1) = 0"
    "list_all isRead (messages (chats (selectChat ''2'' (initialState (mockChats 0))) ! 1))"
    using t [THEN conjunct1]
    by (simp_all add: selectChat_def markAsRead_def initialState_def mockChats_def)
  show ?thesis
    using w3 h w1 w2 h' w0 by (intro conjI)
qed

text \<open>
  C5 as stated fails in the Chat route: the user's own message in the chat of John Doe
  still has the status \<^verbatim>\<open>sent\<close> after the chat has been selected again.
\<close>

theorem selectChat_all_messages_read_counterexample:
  "map_sum id (map chat_idR)
     (map_sum id chatsR
        (runR [ChatSelect ''2'', SetInputText ''Hi'', Send 1000, ChatSelect ''2'']
           (initialStateR []))) = Inr [''1'', ''2'', ''3''] \<and>
   map_sum id (map senderR)
     (thenE (runR [ChatSelect ''2'', SetInputText ''Hi'', Send 1000, ChatSelect ''2'']
               (initialStateR []))
        (messagesIn ''2'')) = Inr [User] \<and>
   map_sum id (map statusR)
     (thenE (runR [ChatSelect ''2'', SetInputText ''Hi'', Send 1000, ChatSelect ''2'']
               (initialStateR []))
        (messagesIn ''2'')) = Inr [Sent]"
  by (simp add: initialStateR_def mockChatsR_def handleChatSelect_def markReadR_def
      handleSend_def handleSendMessage_def fireReply_def resumeReply_def messagesOf_def
      messagesIn_def thenE_def objectPrototypeKeys_def trim_def isWhiteSpace_def falsy_def
      Let_def)

text \<open>
  C4 as stated fails in both components: selecting the id 5, which no chat has, makes it
  the active chat, and in the Chat route it also records an empty message list for it.
\<close>

theorem selectChat_unknown_id_counterexample:
  "''5'' \<notin> set (map chat_id (chats (initialState (mockChats 0)))) \<and>
   selectChat ''5'' (initialState (mockChats 0)) \<noteq> initialState (mockChats 0) \<and>
   activeChat (selectChat ''5'' (initialState (mockChats 0))) = Some ''5'' \<and>
   ''5'' \<notin> set (map chat_idR (chatsR (initialStateR []))) \<and>
   handleChatSelect ''5'' (initialStateR []) \<noteq> Inr (initialStateR []) \<and>
   map_sum id activeChatR (handleChatSelect ''5'' (initialStateR [])) = Inr (Some ''5'') \<and>
   map_sum id messagesR (handleChatSelect ''5'' (initialStateR [])) = Inr [(''5'', [])]"
proof -
  have a: "''5'' \<notin> set (map chat_id (chats (initialState (mockChats 0))))"
    by (simp add: initialState_def mockChats_def)
  have b: "activeChat (selectChat ''5'' (initialState (mockChats 0))) = Some ''5''"
    by (simp add: activeChat_selectChat)
  have "activeChat (initialState (mockChats 0)) = None"
    by (simp add: initialState_def)
  with b have c: "selectChat ''5'' (initialState (mockChats 0)) \<noteq> initialState (mockChats 0)"
    by auto
  have d: "''5'' \<notin> set (map chat_idR (chatsR (initialStateR [])))"
    by (simp add: initialStateR_def mockChatsR_def)
  have e: "map_sum id activeChatR (handleChatSelect ''5'' (initialStateR [])) = Inr (Some ''5'')"
    by (simp add: handleChatSelect_def markReadR_def initialStateR_def messagesOf_def
        objectPrototypeKeys_def)
  have "map_sum id activeChatR (Inr (initialStateR [])) = Inr None"
    by (simp add: initialStateR_def)
  with e have f: "handleChatSelect ''5'' (initialStateR []) \<noteq> Inr (initialStateR [])"
    by auto
  have g: "map_sum id messagesR (handleChatSelect ''5'' (initialStateR [])) = Inr [(''5'', [])]"
    by (simp add: handleChatSelect_def markReadR_def initialStateR_def messagesOf_def
        objectPrototypeKeys_def)
  show ?thesis using a c b d f e g by (intro conjI)
qed

text \<open>
  C4, as the code has it. Selecting an id that no chat has changes no chat. In ChatApp it
  changes \<^verbatim>\<open>activeChat\<close> and nothing else. In the Chat route, for an id that is not
  the name of a property of \<^verbatim>\<open>Object.prototype\<close>, it makes the id the active chat,
  records an empty message list for it when none was stored, and leaves the message
  lists of the other ids alone; for an id that is such a name and has no stored list,
  \<^verbatim>\<open>handleChatSelect\<close> throws a TypeError. The active chat is a chat of the list in every state
  that the component reaches from one where it is, as long as the selected ids are those
  of rows of the chat list, which are the only ids that the click handlers pass; in the
  Chat route the chat ids are then never names of such properties, and no event throws.
\<close>

theorem selectChat_unknown_id_sets_active_only:
  "(chatId \<notin> set (map chat_id (chats s)) \<longrightarrow>
      selectChat chatId s = s\<lparr>activeChat := Some chatId\<rparr>) \<and>
   (chatId \<notin> set (map chat_idR (chatsR r)) \<and> chatId \<notin> set objectPrototypeKeys \<longrightarrow>
      (\<exists>r'. handleChatSelect chatId r = Inr r' \<and>
         chatsR r' = chatsR r \<and>
         activeChatR r' = Some chatId \<and>
         (map_of (messagesR r) chatId = None \<longrightarrow> map_of (messagesR r') chatId = Some []) \<and>
         (\<forall>k. k \<noteq> chatId \<longrightarrow> map_of (messagesR r') k = map_of (messagesR r) k))) \<and>
   (chatId \<in> set objectPrototypeKeys \<and> map_of (messagesR r) chatId = None \<longrightarrow>
      handleChatSelect chatId r = Inl TypeError) \<and>
   (activeChatListed s \<and> allOffered es s \<longrightarrow> activeChatListed (run es s)) \<and>
   (activeChatListedR r \<and> plainIds r \<and> allOfferedR rs r \<longrightarrow>
      (\<exists>r'. runR rs r = Inr r' \<and> activeChatListedR r' \<and> plainIds r'))"
proof -
  have a: "chatId \<notin> set (map chat_id (chats s)) \<longrightarrow>
      selectChat chatId s = s\<lparr>activeChat := Some chatId\<rparr>"
    by (simp add: selectChat_def markAsRead_def map_unlisted del: set_map)
  have b: "chatId \<notin> set (map chat_idR (chatsR r)) \<and> chatId \<notin> set objectPrototypeKeys \<longrightarrow>
      (\<exists>r'. handleChatSelect chatId r = Inr r' \<and>
         chatsR r' = chatsR r \<and>
         activeChatR r' = Some chatId \<and>
         (map_of (messagesR r) chatId = None \<longrightarrow> map_of (messagesR r') chatId = Some []) \<and>
         (\<forall>k. k \<noteq> chatId \<longrightarrow> map_of (messagesR r') k = map_of (messagesR r) k))"
    by (simp add: handleChatSelect_returns [OF messagesOf_plain] map_unlisted map_of_setKey
        del: set_map)
  have c: "activeChatListed s \<and> allOffered es s \<longrightarrow> activeChatListed (run es s)"
    by (simp add: run_listed)
  have d: "activeChatListedR r \<and> plainIds r \<and> allOfferedR rs r \<longrightarrow>
      (\<exists>r'. runR rs r = Inr r' \<and> activeChatListedR r' \<and> plainIds r')"
    by (simp add: runR_returns)
  have e: "chatId \<in> set objectPrototypeKeys \<and> map_of (messagesR r) chatId = None \<longrightarrow>
      handleChatSelect chatId r = Inl TypeError"
    by (simp add: handleChatSelect_throws messagesOf_throws_iff)
  show ?thesis by (rule conjI [OF a conjI [OF b conjI [OF e conjI [OF c d]]]])
qed

theorem selectChat_unknown_id_sets_active_only_witness:
  "selectChat ''5'' (initialState (mockChats 0))
     = initialState (mockChats 0)\<lparr>activeChat := Some ''5''\<rparr> \<and>
   map_sum id chatsR (handleChatSelect ''5'' (initialStateR [(''1'', [])]))
     = Inr (chatsR (initialStateR [(''1'', [])])) \<and>
   map_sum id (\<lambda>r'. map_of (messagesR r') ''5'') (handleChatSelect ''5'' (initialStateR [(''1'', [])]))
     = Inr (Some []) \<and>
   handleChatSelect ''toString'' (initialStateR [(''1'', [])]) = Inl TypeError \<and>
   activeChatListed
     (run [MountEffect, SetSearchQuery ''chat'', SelectChat ''2'', CreateNewChat AiChat 1000]
        (initialState (mockChats 0))) \<and>
   map_sum id activeChatListedR
     (runR [ChatSelect ''2'', SetInputText ''Hi'', Send 1000, NewChat 1000]
        (initialStateR [])) = Inr True"
proof -
  let ?r = "initialStateR [(''1'', [])]"
  let ?es = "[MountEffect, SetSearchQuery ''chat'', SelectChat ''2'', CreateNewChat AiChat 1000]"
  let ?rs = "[ChatSelect ''2'', SetInputText ''Hi'', Send 1000, NewChat 1000]"
  have a: "''5'' \<notin> set (map chat_id (chats (initialState (mockChats 0))))"
    by (simp add: initialState_def mockChats_def)
  have b: "''5'' \<notin> set (map chat_idR (chatsR ?r)) \<and> ''5'' \<notin> set objectPrototypeKeys"
    by (simp add: initialStateR_def mockChatsR_def objectPrototypeKeys_def)
  have c: "activeChatListed (initialState (mockChats 0)) \<and> allOffered ?es (initialState (mockChats 0))"
    by code_simp
  have d: "activeChatListedR (initialStateR []) \<and> plainIds (initialStateR []) \<and>
      allOfferedR ?rs (initialStateR [])"
    by (simp add: activeChatListedR_def plainIds_def initialStateR_def mockChatsR_def
        objectPrototypeKeys_def filteredChatsR_def includesStr_Nil handleChatSelect_def
        markReadR_def messagesOf_def handleSend_def handleSendMessage_def trim_def
        isWhiteSpace_def falsy_def Let_def)
       (simp add: toLowerCase_def)
  note t = selectChat_unknown_id_sets_active_only
    [where chatId = "''5''" and s = "initialState (mockChats 0)"
       and r = "initialStateR [(''1'', [])]"
       and es = "[MountEffect, SetSearchQuery ''chat'', SelectChat ''2'', CreateNewChat AiChat 1000]"
       and rs = "[]"]
  note u = selectChat_unknown_id_sets_active_only
    [where chatId = "''5''" and s = "initialState (mockChats 0)" and r = "initialStateR []"
       and es = "[]"
       and rs = "[ChatSelect ''2'', SetInputText ''Hi'', Send 1000, NewChat 1000]"]
  have w1: "selectChat ''5'' (initialState (mockChats 0))
     = initialState (mockChats 0)\<lparr>activeChat := Some ''5''\<rparr>"
    using t [THEN conjunct1] a by (rule mp)
  from t [THEN conjunct2, THEN conjunct1, THEN mp, OF b]
  obtain r' where r': "handleChatSelect ''5'' ?r = Inr r'" "chatsR r' = chatsR ?r"
    "map_of (messagesR ?r) ''5'' = None \<longrightarrow> map_of (messagesR r') ''5'' = Some []"
    by (elim exE conjE) (rule that)
  have w2: "map_sum id chatsR (handleChatSelect ''5'' ?r) = Inr (chatsR ?r)"
    by (simp add: r'(1,2))
  have "map_of (messagesR r') ''5'' = Some []"
    using r'(3) by (simp add: initialStateR_def)
  then have w3: "map_sum id (\<lambda>r'. map_of (messagesR r') ''5'') (handleChatSelect ''5'' ?r)
      = Inr (Some [])"
    by (simp add: r'(1))
  have p: "''toString'' \<in> set objectPrototypeKeys \<and> map_of (messagesR ?r) ''toString'' = None"
    by (simp add: initialStateR_def objectPrototypeKeys_def)
  note v = selectChat_unknown_id_sets_active_only
    [where chatId = "''toString''" and s = "initialState (mockChats 0)"
       and r = "initialStateR [(''1'', [])]" and es = "[]" and rs = "[]"]
  have w6: "handleChatSelect ''toString'' ?r = Inl TypeError"
    using v [THEN conjunct2, THEN conjunct2, THEN conjunct1] p by (rule mp)
  have w4: "activeChatListed (run ?es (initialState (mockChats 0)))"
    using t [THEN conjunct2, THEN conjunct2, THEN conjunct2, THEN conjunct1] c by (rule mp)
  from u [THEN conjunct2, THEN conjunct2, THEN conjunct2, THEN conjunct2, THEN mp, OF d]
  obtain r'' where "runR ?rs (initialStateR []) = Inr r''" "activeChatListedR r''"
    by (elim exE conjE) (rule that)
  then have w5: "map_sum id activeChatListedR (runR ?rs (initialStateR [])) = Inr True"
    by simp
  show ?thesis
    using w1 w2 w3 w6 w4 w5 by (intro conjI)
qed

section \<open>Unread counts in ChatApp\<close>

text \<open>
  C9. In ChatApp no sequence of events raises the unread count of a chat, and a created
  chat has none. A timer that fires leaves every unread count as it is, whichever chat
  is active, and the message it appends, if any, is from the AI and is read.
\<close>

theorem unread_count_never_raised:
  "unreadNotRaised (chats s) (chats (run es s)) \<and>
   map unreadCount (chats (fireTimer i now k s)) = map unreadCount (chats s) \<and>
   list_all2 (\<lambda>c c'. messages c' = messages c \<or>
                (\<exists>m. messages c' = messages c @ [m] \<and> sender m = Ai \<and> isRead m))
     (chats s) (chats (fireTimer i now k s))"
proof -
  have a: "unreadNotRaised (chats s) (chats (run es s))"
    by (rule unread_run)
  have b: "map unreadCount (chats (fireTimer i now k s)) = map unreadCount (chats s)"
    using chats_fireTimer [of i now k s] by (auto simp: ids_map_if)
  have c: "list_all2 (\<lambda>c c'. messages c' = messages c \<or>
                (\<exists>m. messages c' = messages c @ [m] \<and> sender m = Ai \<and> isRead m))
     (chats s) (chats (fireTimer i now k s))"
    using chats_fireTimer [of i now k s] by (auto simp: list_all2_map2 list_all2_same)
  show ?thesis using a b c by (intro conjI)
qed

section \<open>The reply of the simulator\<close>

lemma resumeReply_messages:
  "thenE (resumeReply p now k s) (messagesIn (r_activeChat p)) =
     map_sum id
       (\<lambda>old. old @ [r_newMessage p,
          \<lparr>idR = toString (now + 1), textR = getAIResponse k (r_text p), senderR = Ai,
           timestampR = DateObj now, statusR = Delivered\<rparr>])
       (messagesIn (r_activeChat p) s)"
  by (cases "messagesOf (messagesR s) (r_activeChat p)")
     (simp_all add: resumeReply_def messagesIn_def thenE_def Let_def messagesOf_setKey)

text \<open>
  C1 fails in the Chat route. When \<^verbatim>\<open>getAIResponse\<close> has resolved,
  \<^verbatim>\<open>handleSendMessage\<close> appends \<^verbatim>\<open>newMessage\<close> and \<^verbatim>\<open>aiMessage\<close> to the
  messages of the chat, and \<^verbatim>\<open>newMessage\<close> is the message of the user that the
  same call has appended before the \<^verbatim>\<open>await\<close>: the reply makes the history two
  messages longer, not one, and the message of the user stands in it twice, under
  one id. So after the user has selected the first chat, sent Hello at time 1000 and
  selected the second chat, and the reply has resolved at time 2000: the first chat
  holds the messages 1000, 1000 and 2001, from the user, the user and the AI. In
  ChatApp the same events add the message of the user once and the reply once to the
  greeting of the first chat.
\<close>

theorem reply_appends_the_user_message_again:
  "thenE (resumeReply p now k s) (messagesIn (r_activeChat p)) =
     map_sum id
       (\<lambda>old. old @ [r_newMessage p,
          \<lparr>idR = toString (now + 1), textR = getAIResponse k (r_text p), senderR = Ai,
           timestampR = DateObj now, statusR = Delivered\<rparr>])
       (messagesIn (r_activeChat p) s) \<and>
   map_sum id (map idR)
     (thenE (runR [ChatSelect ''1'', SetInputText ''Hello'', Send 1000] (initialStateR []))
        (messagesIn ''1'')) = Inr [''1000''] \<and>
   map_sum id (map idR)
     (thenE (runR [ChatSelect ''1'', SetInputText ''Hello'', Send 1000, ChatSelect ''2'',
                   ReplyResolves 0 2000 3] (initialStateR []))
        (messagesIn ''1'')) = Inr [''1000'', ''1000'', ''2001''] \<and>
   map_sum id (map senderR)
     (thenE (runR [ChatSelect ''1'', SetInputText ''Hello'', Send 1000, ChatSelect ''2'',
                   ReplyResolves 0 2000 3] (initialStateR []))
        (messagesIn ''1'')) = Inr [User, User, Ai] \<and>
   map (\<lambda>c. map sender (messages c))
     (chats (run [SelectChat ''1'', SetNewMessage ''Hello'', SendMessage 1000, SelectChat ''3'',
                  TimerFires 0 2000 3] (initialState (mockChats 0))))
     = [[Ai, User, Ai], [Ai], [Contact], [Contact]]"
proof -
  have a: "thenE (resumeReply p now k s) (messagesIn (r_activeChat p)) =
     map_sum id
       (\<lambda>old. old @ [r_newMessage p,
          \<lparr>idR = toString (now + 1), textR = getAIResponse k (r_text p), senderR = Ai,
           timestampR = DateObj now, statusR = Delivered\<rparr>])
       (messagesIn (r_activeChat p) s)"
    by (rule resumeReply_messages)
  have b: "map_sum id (map idR)
     (thenE (runR [ChatSelect ''1'', SetInputText ''Hello'', Send 1000] (initialStateR []))
        (messagesIn ''1'')) = Inr [''1000'']"
    by (simp add: initialStateR_def mockChatsR_def handleChatSelect_def markReadR_def
        handleSend_def handleSendMessage_def fireReply_def resumeReply_def messagesOf_def
        messagesIn_def thenE_def objectPrototypeKeys_def trim_def isWhiteSpace_def falsy_def
        Let_def toString_examples)
  have c: "map_sum id (map idR)
     (thenE (runR [ChatSelect ''1'', SetInputText ''Hello'', Send 1000, ChatSelect ''2'',
                   ReplyResolves 0 2000 3] (initialStateR []))
        (messagesIn ''1'')) = Inr [''1000'', ''1000'', ''2001'']"
    by (simp add: initialStateR_def mockChatsR_def handleChatSelect_def markReadR_def
        handleSend_def handleSendMessage_def fireReply_def resumeReply_def messagesOf_def
        messagesIn_def thenE_def objectPrototypeKeys_def trim_def isWhiteSpace_def falsy_def
        Let_def toString_examples)
  have d: "map_sum id (map senderR)
     (thenE (runR [ChatSelect ''1'', SetInputText ''Hello'', Send 1000, ChatSelect ''2'',
                   ReplyResolves 0 2000 3] (initialStateR []))
        (messagesIn ''1'')) = Inr [User, User, Ai]"
    by (simp add: initialStateR_def mockChatsR_def handleChatSelect_def markReadR_def
        handleSend_def handleSendMessage_def fireReply_def resumeReply_def messagesOf_def
        messagesIn_def thenE_def objectPrototypeKeys_def trim_def isWhiteSpace_def falsy_def
        Let_def)
  have e: "map (\<lambda>c. map sender (messages c))
     (chats (run [SelectChat ''1'', SetNewMessage ''Hello'', SendMessage 1000, SelectChat ''3'',
                  TimerFires 0 2000 3] (initialState (mockChats 0))))
     = [[Ai, User, Ai], [Ai], [Contact], [Contact]]"
    by (simp add: initialState_def mockChats_def selectChat_def markAsRead_def sendMessage_def
        fireTimer_def timeoutCallback_def trim_def isWhiteSpace_def falsy_def Let_def)
  show ?thesis by (rule conjI [OF a conjI [OF b conjI [OF c conjI [OF d e]]]])
qed

section \<open>The last message of a chat\<close>

text \<open>
  C7 fails in ChatApp. The effect that sets \<^verbatim>\<open>lastMessage\<close> runs once, after the
  first render; \<^verbatim>\<open>sendMessage\<close> and the callback of the timer leave the
  \<^verbatim>\<open>lastMessage\<close> of every chat as it is. After the user has selected the first
  chat and sent the text Hi, the chat has two messages and its \<^verbatim>\<open>lastMessage\<close>
  is still the first one.
\<close>

theorem lastMessage_is_stale_after_send:
  "map lastMessage (chats (sendMessage now s)) = map lastMessage (chats s) \<and>
   map lastMessage (chats (fireTimer i now k s)) = map lastMessage (chats s) \<and>
   map (\<lambda>c. lastMessage c = lastOf (messages c))
     (chats (run [MountEffect, SelectChat ''1'', SetNewMessage ''Hi'', SendMessage 1000]
               (initialState (mockChats 0))))
     = [False, True, True, True] \<and>
   map msg_text (messages (hd (chats
       (run [MountEffect, SelectChat ''1'', SetNewMessage ''Hi'', SendMessage 1000]
          (initialState (mockChats 0))))))
     = [''Hello! I'' @ [CHR 0x27] @ ''m your AI assistant. How can I help you today?'', ''Hi''] \<and>
   map_option msg_text (lastMessage (hd (chats
       (run [MountEffect, SelectChat ''1'', SetNewMessage ''Hi'', SendMessage 1000]
          (initialState (mockChats 0))))))
     = Some (''Hello! I'' @ [CHR 0x27] @ ''m your AI assistant. How can I help you today?'')"
proof -
  have a: "map lastMessage (chats (sendMessage now s)) = map lastMessage (chats s)"
    by (rule lastMessage_sendMessage)
  have b: "map lastMessage (chats (fireTimer i now k s)) = map lastMessage (chats s)"
    by (rule lastMessage_fireTimer)
  have c: "map (\<lambda>c. lastMessage c = lastOf (messages c))
     (chats (run [MountEffect, SelectChat ''1'', SetNewMessage ''Hi'', SendMessage 1000]
               (initialState (mockChats 0))))
     = [False, True, True, True] \<and>
   map msg_text (messages (hd (chats
       (run [MountEffect, SelectChat ''1'', SetNewMessage ''Hi'', SendMessage 1000]
          (initialState (mockChats 0))))))
     = [''Hello! I'' @ [CHR 0x27] @ ''m your AI assistant. How can I help you today?'', ''Hi''] \<and>
   map_option msg_text (lastMessage (hd (chats
       (run [MountEffect, SelectChat ''1'', SetNewMessage ''Hi'', SendMessage 1000]
          (initialState (mockChats 0))))))
     = Some (''Hello! I'' @ [CHR 0x27] @ ''m your AI assistant. How can I help you today?'')"
    by (simp add: initialState_def mockChats_def updateLastMessages_def selectChat_def
        markAsRead_def sendMessage_def lastOf_def trim_def isWhiteSpace_def falsy_def Let_def)
  show ?thesis by (rule conjI [OF a conjI [OF b c]])
qed

section \<open>Loading what was saved\<close>

lemma jsonImage_message: "jsonImage toISO (jsOfMessage m) = jsOfMessage (asParsed toISO m)"
  by (cases "timestamp m") (simp_all add: jsOfMessage_def asParsed_def textOfTime_def jsOfTime_def)

lemma reviveMessage_saved:
  assumes "timestamp m = DateObj t" and "newDate (Some (JStr (toISO t))) = Some t"
  shows "reviveMessage newDate (jsOfMessage (asParsed toISO m)) = Inr (jsOfMessage m)"
  using assms
  by (simp add: reviveMessage_def jsOfMessage_def asParsed_def textOfTime_def jsOfTime_def)

lemma mapE_map:
  "(\<And>x. x \<in> set xs \<Longrightarrow> f (g x) = Inr (h x)) \<Longrightarrow> mapE f (map g xs) = Inr (map h xs)"
  by (induction xs) simp_all

lemma jsonImage_chat:
  "jsonImage toISO (jsOfChat c) =
   jsOfChat (c\<lparr>messages := map (asParsed toISO) (messages c),
               lastMessage := map_option (asParsed toISO) (lastMessage c)\<rparr>)"
  by (cases "lastMessage c") (simp_all add: jsOfChat_def jsonImage_message comp_def)

lemma reviveChat_saved:
  assumes "\<And>m. m \<in> set (messages c) \<Longrightarrow>
             \<exists>t. timestamp m = DateObj t \<and> newDate (Some (JStr (toISO t))) = Some t"
  shows "reviveChat newDate (jsOfChat (c\<lparr>messages := map (asParsed toISO) (messages c),
                                         lastMessage := lm\<rparr>))
         = Inr (jsOfChat (c\<lparr>lastMessage := lm\<rparr>))"
proof -
  have "mapE (reviveMessage newDate) (map (\<lambda>m. jsOfMessage (asParsed toISO m)) (messages c))
        = Inr (map jsOfMessage (messages c))"
  proof (rule mapE_map)
    fix m assume "m \<in> set (messages c)"
    then obtain t where "timestamp m = DateObj t" "newDate (Some (JStr (toISO t))) = Some t"
      using assms by blast
    then show "reviveMessage newDate (jsOfMessage (asParsed toISO m)) = Inr (jsOfMessage m)"
      by (rule reviveMessage_saved)
  qed
  then show ?thesis
    by (simp add: reviveChat_def jsOfChat_def comp_def)
qed

lemma initChats_saved:
  assumes "\<And>c m. c \<in> set cs \<Longrightarrow> m \<in> set (messages c) \<Longrightarrow>
             \<exists>t. timestamp m = DateObj t \<and> newDate (Some (JStr (toISO t))) = Some t"
  shows "initChats newDate now (saveChats toISO cs) =
     Inr (jsOfChats (map (\<lambda>c. c\<lparr>lastMessage := map_option (asParsed toISO) (lastMessage c)\<rparr>) cs))"
proof -
  have "mapE (reviveChat newDate) (map (\<lambda>c. jsonImage toISO (jsOfChat c)) cs)
        = Inr (map (\<lambda>c. jsOfChat (c\<lparr>lastMessage := map_option (asParsed toISO) (lastMessage c)\<rparr>)) cs)"
  proof (rule mapE_map)
    fix c assume c: "c \<in> set cs"
    have "reviveChat newDate (jsOfChat (c\<lparr>messages := map (asParsed toISO) (messages c),
              lastMessage := map_option (asParsed toISO) (lastMessage c)\<rparr>))
        = Inr (jsOfChat (c\<lparr>lastMessage := map_option (asParsed toISO) (lastMessage c)\<rparr>))"
      using assms [OF c] by (rule reviveChat_saved)
    then show "reviveChat newDate (jsonImage toISO (jsOfChat c))
        = Inr (jsOfChat (c\<lparr>lastMessage := map_option (asParsed toISO) (lastMessage c)\<rparr>))"
      by (simp add: jsonImage_chat)
  qed
  then show ?thesis
    by (simp add: initChats_def saveChats_def jsOfChats_def comp_def)
qed

lemma senderOfStr_senderStr: "senderOfStr (senderStr x) = Some x"
  by (cases x) (simp_all add: senderOfStr_def senderStr_def)

lemma typeOfStr_typeStr: "typeOfStr (typeStr x) = Some x"
  by (cases x) (simp_all add: typeOfStr_def typeStr_def)

lemma timeOfJs_jsOfTime: "timeOfJs (jsOfTime x) = Some x"
  by (cases x) (simp_all add: timeOfJs_def jsOfTime_def)

lemma messageOfJs_jsOfMessage: "messageOfJs (jsOfMessage m) = Some m"
  by (simp add: messageOfJs_def jsOfMessage_def strOf_def boolOf_def
      senderOfStr_senderStr timeOfJs_jsOfTime)

lemma those_map_Some: "(\<And>x. x \<in> set xs \<Longrightarrow> f (g x) = Some x) \<Longrightarrow> those (map f (map g xs)) = Some xs"
  by (induction xs) simp_all

lemma chatOfJs_jsOfChat: "chatOfJs (jsOfChat c) = Some c"
proof -
  have "those (map messageOfJs (map jsOfMessage (messages c))) = Some (messages c)"
    by (rule those_map_Some) (rule messageOfJs_jsOfMessage)
  then show ?thesis
    by (cases "lastMessage c")
      (simp_all add: chatOfJs_def jsOfChat_def strOf_def boolOf_def natOf_def arrOf_def
        typeOfStr_typeStr messageOfJs_jsOfMessage)
qed

lemma chatsOfJs_jsOfChats: "chatsOfJs (jsOfChats cs) = Some cs"
proof -
  have "those (map chatOfJs (map jsOfChat cs)) = Some cs"
    by (rule those_map_Some) (rule chatOfJs_jsOfChat)
  then show ?thesis
    by (simp add: chatsOfJs_def jsOfChats_def del: map_map)
qed

lemma ChatApp_reloads_what_it_saved:
  assumes "\<And>c m. c \<in> set cs \<Longrightarrow> m \<in> set (messages c) \<Longrightarrow>
             \<exists>t. timestamp m = DateObj t \<and> newDate (Some (JStr (toISO t))) = Some t"
  shows "\<exists>j. initChats newDate now (saveChats toISO cs) = Inr j \<and>
     chatsOfJs j =
       Some (map (\<lambda>c. c\<lparr>lastMessage := map_option (asParsed toISO) (lastMessage c)\<rparr>) cs) \<and>
     map_option (\<lambda>cs'. updateLastMessages (initialState cs')) (chatsOfJs j) =
       Some (updateLastMessages (initialState cs))"
proof -
  let ?cs' = "map (\<lambda>c. c\<lparr>lastMessage := map_option (asParsed toISO) (lastMessage c)\<rparr>) cs"
  have 1: "initChats newDate now (saveChats toISO cs) = Inr (jsOfChats ?cs')"
    using assms by (rule initChats_saved)
  have 2: "chatsOfJs (jsOfChats ?cs') = Some ?cs'"
    by (rule chatsOfJs_jsOfChats)
  have 3: "updateLastMessages (initialState ?cs') = updateLastMessages (initialState cs)"
    by (simp add: updateLastMessages_def initialState_def comp_def)
  show ?thesis using 1 2 3 by simp
qed

lemma statusOfStr_statusStr: "statusOfStr (statusStr x) = Some x"
  by (cases x) (simp_all add: statusOfStr_def statusStr_def)

lemma jsonImage_messageR: "jsonImage toISO (jsOfMessageR m) = jsOfMessageR (asParsedR toISO m)"
  by (cases "timestampR m")
    (simp_all add: jsOfMessageR_def asParsedR_def textOfTime_def jsOfTime_def)

lemma messageROfJs_jsOfMessageR: "messageROfJs (jsOfMessageR m) = Some m"
  by (simp add: messageROfJs_def jsOfMessageR_def strOf_def
      senderOfStr_senderStr statusOfStr_statusStr timeOfJs_jsOfTime)

lemma those_map_Some': "(\<And>x. x \<in> set xs \<Longrightarrow> f x = Some (g x)) \<Longrightarrow> those (map f xs) = Some (map g xs)"
  by (induction xs) simp_all

lemma loadMessages_saved:
  "messagesOfJs (loadMessages (saveMessages toISO m)) =
     Some (map (\<lambda>(k, ms). (k, map (asParsedR toISO) ms)) m)"
proof -
  have 1: "those (map (\<lambda>x. messageROfJs (jsonImage toISO (jsOfMessageR x))) ms)
             = Some (map (asParsedR toISO) ms)" for ms
    by (rule those_map_Some') (simp add: jsonImage_messageR messageROfJs_jsOfMessageR)
  have "those (map (\<lambda>(k, v). map_option (Pair k)
                 (Option.bind (arrOf (Some v)) (\<lambda>xs. those (map messageROfJs xs))))
          (map (map_prod id (jsonImage toISO))
             (map (\<lambda>(k, ms). (k, JArr (map jsOfMessageR ms))) m)))
        = Some (map (\<lambda>(k, ms). (k, map (asParsedR toISO) ms)) m)"
    by (induction m) (auto simp: arrOf_def 1 comp_def)
  then show ?thesis
    by (simp add: messagesOfJs_def loadMessages_def saveMessages_def jsOfMessages_def)
qed

text \<open>
  C3 fails in ChatApp. The state initializer calls \<^verbatim>\<open>JSON.parse\<close> outside any
  \<^verbatim>\<open>try\<close>: a stored text that is not JSON makes it throw a SyntaxError, and a
  stored \<^verbatim>\<open>null\<close>, or a chat without messages, a TypeError. Without a stored item
  it returns the seed chats; \<^verbatim>\<open>loadMessages\<close> of the Chat route catches the
  exception and returns the empty record.
\<close>

theorem initChats_throws_on_corrupt_item:
  "initChats newDate now Unparsable = Inl SyntaxError \<and>
   initChats newDate now (Parsed JNull) = Inl TypeError \<and>
   initChats newDate now (Parsed (JArr [JObj [(''id'', JStr ''1'')]])) = Inl TypeError \<and>
   initChats newDate now Missing = Inr (jsOfChats (mockChats now)) \<and>
   initChats newDate now EmptyText = Inr (jsOfChats (mockChats now)) \<and>
   loadMessages Unparsable = JObj []"
  by (simp add: initChats_def reviveChat_def loadMessages_def)

text \<open>
  C2 fails in the Chat route. \<^verbatim>\<open>loadMessages\<close> returns what \<^verbatim>\<open>JSON.parse\<close>
  returns: the timestamp of every saved message comes back as the text that
  \<^verbatim>\<open>JSON.stringify\<close> wrote for it, not as a \<^verbatim>\<open>Date\<close>; so for the message
  Hello, sent at time 1000. ChatApp makes a \<^verbatim>\<open>Date\<close> of each of them again
  (\<open>ChatApp_reloads_what_it_saved\<close>).
\<close>

theorem loadMessages_leaves_timestamps_as_text:
  "messagesOfJs (loadMessages (saveMessages toISOString m)) =
     Some (map (\<lambda>(k, ms). (k, map (asParsedR toISOString) ms)) m) \<and>
   messagesOfJs (loadMessages (saveMessages toISOString
       [(''1'', [\<lparr>idR = ''1000'', textR = ''Hello'', senderR = User,
                  timestampR = DateObj 1000, statusR = Sent\<rparr>])]))
     = Some [(''1'', [\<lparr>idR = ''1000'', textR = ''Hello'', senderR = User,
                       timestampR = IsoText (toISOString 1000), statusR = Sent\<rparr>])]"
  by (simp add: loadMessages_saved asParsedR_def textOfTime_def)

end
